theory Spec2Isabelle
  imports Main "HOL-Library.AList"
begin

section \<open>Data model of \<open>main.go\<close>\<close>

text \<open>
  A Go \<open>string\<close> is a sequence of bytes, which is what HOL's \<open>string\<close> (a list of 8-bit
  characters) is; \<open>==\<close> on Go strings is equality of the byte sequences.

  A Go \<open>map[string]string\<close> is modelled as an association list: \<open>m[k]\<close> with the
  comma-ok form is \<open>map_of m k\<close>, the assignment \<open>m[k] = v\<close> is \<open>AList.update k v m\<close>,
  \<open>make(map[string]string)\<close> and the \<open>nil\<close> map are \<open>[]\<close>, and \<open>range m\<close> visits the
  entries in the order of the list. Go leaves the order of \<open>range\<close> over a map open; the
  list fixes one order, and the lemmas \<open>compare_keys_order\<close> and \<open>compare_keys_acc\<close>
  below show what does not depend on it.
\<close>

type_synonym gomap = "(string \<times> string) list"

abbreviation NL :: char where "NL \<equiv> CHR 0x0A"
abbreviation DQ :: char where "DQ \<equiv> CHR 0x22"
abbreviation BSL :: char where "BSL \<equiv> CHR 0x5C"
abbreviation SQ :: char where "SQ \<equiv> CHR 0x27"

record Metadata =
  Name :: string
  Namespace :: string

record KubernetesSecret =
  APIVersion :: string
  Kind :: string
  Metadata :: Metadata
  Type :: string
  StringData :: gomap

text \<open>\<open>DeployedSecret\<close>; the fields carry a prefix because \<open>Name\<close> and \<open>Namespace\<close> are
  fields of \<open>Metadata\<close> already.\<close>

record DeployedSecret =
  DS_Name :: string
  DS_Namespace :: string
  DS_Data :: gomap

text \<open>\<open>SecretDifference\<close>: the two \<open>*string\<close> fields are options, \<open>nil\<close> being \<open>None\<close>.\<close>

record SecretDifference =
  Key :: string
  Local :: "string option"
  Deployed :: "string option"

text \<open>A run-time panic of the Go program.\<close>

datatype panic = NilPointerDereference

section \<open>\<open>compareSecrets\<close>\<close>

text \<open>\<open>keysSet[key] = struct{}{}\<close> on the \<open>map[string]struct{}\<close> used as a set.\<close>

definition set_add :: "string \<Rightarrow> string list \<Rightarrow> string list" where
  "set_add key keysSet = (if key \<in> set keysSet then keysSet else keysSet @ [key])"

text \<open>\<open>for key := range m { keysSet[key] = struct{}{} }\<close>\<close>

fun add_keys :: "gomap \<Rightarrow> string list \<Rightarrow> string list" where
  "add_keys [] keysSet = keysSet"
| "add_keys ((key, v) # m) keysSet = add_keys m (set_add key keysSet)"

text \<open>The loop \<open>for key := range keysSet\<close> with its three branches; \<open>differences\<close> is the
  slice being appended to.\<close>

fun compare_keys ::
  "string list \<Rightarrow> gomap \<Rightarrow> gomap \<Rightarrow> SecretDifference list \<Rightarrow> SecretDifference list" where
  "compare_keys [] localData deployedData differences = differences"
| "compare_keys (key # keys) localData deployedData differences =
     (let localVal = map_of localData key; deployedVal = map_of deployedData key in
      if localVal = None \<and> deployedVal \<noteq> None then
        compare_keys keys localData deployedData
          (differences @ [\<lparr>Key = key, Local = None, Deployed = deployedVal\<rparr>])
      else if localVal \<noteq> None \<and> deployedVal = None then
        compare_keys keys localData deployedData
          (differences @ [\<lparr>Key = key, Local = localVal, Deployed = None\<rparr>])
      else if localVal \<noteq> None \<and> deployedVal \<noteq> None \<and> localVal \<noteq> deployedVal then
        compare_keys keys localData deployedData
          (differences @ [\<lparr>Key = key, Local = localVal, Deployed = deployedVal\<rparr>])
      else compare_keys keys localData deployedData differences)"

text \<open>
  \<open>compareSecrets(local KubernetesSecret, deployed *DeployedSecret)\<close>. The first loop reads
  \<open>local.StringData\<close> only; the second evaluates \<open>deployed.Data\<close>, which panics when
  \<open>deployed\<close> is \<open>nil\<close>.
\<close>

definition compareSecrets ::
  "KubernetesSecret \<Rightarrow> DeployedSecret option \<Rightarrow> panic + SecretDifference list" where
  "compareSecrets localSecret deployed =
     (let keysSet = add_keys (StringData localSecret) [] in
      case deployed of
        None \<Rightarrow> Inl NilPointerDereference
      | Some d \<Rightarrow>
          (let keysSet = add_keys (DS_Data d) keysSet in
           Inr (compare_keys keysSet (StringData localSecret) (DS_Data d) [])))"

text \<open>The three cases of the \<open>switch\<close> in the report loop of \<open>main\<close> name the classes of a
  difference entry; an entry with both pointers \<open>nil\<close> matches no case.\<close>

datatype classification = DIFFERENT | ONLY_IN_LOCAL | ONLY_IN_DEPLOYED

definition classify :: "SecretDifference \<Rightarrow> classification option" where
  "classify diff =
     (if Local diff \<noteq> None \<and> Deployed diff \<noteq> None then Some DIFFERENT
      else if Local diff \<noteq> None \<and> Deployed diff = None then Some ONLY_IN_LOCAL
      else if Local diff = None \<and> Deployed diff \<noteq> None then Some ONLY_IN_DEPLOYED
      else None)"

section \<open>\<open>formatYAMLValue\<close>\<close>

text \<open>
  The functions of Go's \<open>strings\<close> package that \<open>formatYAMLValue\<close> calls, each for the
  one-byte separator it is called with: \<open>strings.Split(s, sep)\<close>,
  \<open>strings.Join(elems, sep)\<close> and \<open>strings.ReplaceAll(s, old, new)\<close>. \<open>strings.Contains(value,
  "\n")\<close> is \<open>NL \<in> set value\<close>.
\<close>

fun strings_Split :: "string \<Rightarrow> char \<Rightarrow> string list" where
  "strings_Split [] sep = [[]]"
| "strings_Split (c # s) sep =
     (if c = sep then [] # strings_Split s sep
      else (case strings_Split s sep of
              [] \<Rightarrow> [[c]]
            | line # lines \<Rightarrow> (c # line) # lines))"

fun strings_Join :: "string list \<Rightarrow> string \<Rightarrow> string" where
  "strings_Join [] sep = []"
| "strings_Join [a] sep = a"
| "strings_Join (a # b # elems) sep = a @ sep @ strings_Join (b # elems) sep"

fun strings_ReplaceAll :: "string \<Rightarrow> char \<Rightarrow> string \<Rightarrow> string" where
  "strings_ReplaceAll [] old new = []"
| "strings_ReplaceAll (c # s) old new =
     (if c = old then new else [c]) @ strings_ReplaceAll s old new"

text \<open>\<open>for _, line := range lines { formattedLines = append(formattedLines, "    "+line) }\<close>\<close>

fun indent_lines :: "string list \<Rightarrow> string list \<Rightarrow> string list" where
  "indent_lines [] formattedLines = formattedLines"
| "indent_lines (line # lines) formattedLines =
     indent_lines lines (formattedLines @ [''    '' @ line])"

definition formatYAMLValue :: "string \<Rightarrow> string" where
  "formatYAMLValue v =
     (if NL \<in> set v then
        (let lines = strings_Split v NL;
             formattedLines = indent_lines lines []
         in ''|-'' @ [NL] @ strings_Join formattedLines [NL])
      else
        (let escapedValue = strings_ReplaceAll v DQ [BSL, DQ]
         in [DQ] @ escapedValue @ [DQ]))"

section \<open>Output\<close>

text \<open>
  Everything the program writes goes to standard output (\<open>log.SetOutput(os.Stdout)\<close>). A
  \<open>Print\<close> item is the exact text of one \<open>fmt.Printf\<close> or \<open>fmt.Println\<close> call; a \<open>Log\<close> item
  is the message of one call of the \<open>log\<close> package with its final newline, without the
  date, time and source position that \<open>--verbose\<close> puts in front of it.
\<close>

datatype out = Log string | Print string

section \<open>The report on one secret\<close>

record report_state =
  printed :: "out list"
  missingLocalKeys :: gomap
  replaceLocalKeys :: gomap

text \<open>\<open>for _, diff := range differences { switch { ... } }\<close>\<close>

fun diff_loop :: "SecretDifference list \<Rightarrow> report_state \<Rightarrow> report_state" where
  "diff_loop [] s = s"
| "diff_loop (diff # differences) s =
     diff_loop differences
       (case (Local diff, Deployed diff) of
          (Some localVal, Some deployedVal) \<Rightarrow>
            s\<lparr>printed := printed s @
                 [Print ('' - [DIFFERENT] '' @ Key diff @ '':'' @ [NL]),
                  Print (''   Local:     '' @ localVal @ [NL]),
                  Print (''   Deployed:  '' @ deployedVal @ [NL, NL])],
               replaceLocalKeys := AList.update (Key diff) deployedVal (replaceLocalKeys s)\<rparr>
        | (Some localVal, None) \<Rightarrow>
            s\<lparr>printed := printed s @
                 [Print ('' - [ONLY IN LOCAL] '' @ Key diff @ '':'' @ [NL]),
                  Print (''   Value: '' @ localVal @ [NL, NL])]\<rparr>
        | (None, Some deployedVal) \<Rightarrow>
            s\<lparr>printed := printed s @
                 [Print ('' - [ONLY IN DEPLOYED] '' @ Key diff @ '':'' @ [NL]),
                  Print (''   Value: '' @ deployedVal @ [NL, NL])],
               missingLocalKeys := AList.update (Key diff) deployedVal (missingLocalKeys s)\<rparr>
        | (None, None) \<Rightarrow> s)"

definition merge_heading :: string where
  "merge_heading =
     ''Merge following key-value pairs into your local file to match deployed secrets:''"

definition add_heading :: string where
  "add_heading =
     ''Following should be added locally to make it match the deployed secrets:''"

text \<open>One fenced snippet: the heading, the fence, \<open>stringData:\<close>, one line for each entry of
  the accumulator, the closing fence and an empty line.\<close>

definition snippet :: "string \<Rightarrow> gomap \<Rightarrow> out list" where
  "snippet heading keys =
     [Print (heading @ [NL]), Print (''```yaml'' @ [NL]), Print (''stringData:'' @ [NL])] @
     map (\<lambda>(key, v). Print (''  '' @ key @ '': '' @ formatYAMLValue v @ [NL])) keys @
     [Print (''```'' @ [NL]), Print [NL]]"

record run_state =
  stdout :: "out list"
  globalDifferencesFound :: bool

definition header :: "KubernetesSecret \<Rightarrow> string" where
  "header localSecret =
     ''=== '' @ Name (Metadata localSecret) @ '' (Namespace: '' @
     Namespace (Metadata localSecret) @ '') ==='' @ [NL]"

text \<open>The \<open>if len(differences) == 0 { ... } else { ... }\<close> of \<open>main\<close>.\<close>

definition report :: "KubernetesSecret \<Rightarrow> SecretDifference list \<Rightarrow> run_state \<Rightarrow> run_state" where
  "report localSecret differences st =
     (if length differences = 0 then
        st\<lparr>stdout := stdout st @
          [Print (header localSecret @
             ''All secrets match between the local file and the deployed Kubernetes secret.'' @
             [NL, NL])]\<rparr>
      else
        (let s = diff_loop differences
                   \<lparr>printed = [Print (header localSecret @ ''Differences found:'' @ [NL])],
                    missingLocalKeys = [], replaceLocalKeys = []\<rparr>;
             s = (if length (replaceLocalKeys s) > 0
                  then s\<lparr>printed := printed s @ snippet merge_heading (replaceLocalKeys s)\<rparr>
                  else s);
             s = (if length (missingLocalKeys s) > 0
                  then s\<lparr>printed := printed s @ snippet add_heading (missingLocalKeys s)\<rparr>
                  else s)
         in \<lparr>stdout = stdout st @ printed s, globalDifferencesFound = True\<rparr>))"

section \<open>Patterns\<close>

text \<open>
  Models of the library functions \<open>parsePatterns\<close> calls, on a system whose path separator
  is \<open>/\<close>. \<open>strings.TrimSpace\<close> removes leading and trailing white space; the model knows
  the six ASCII white-space bytes (the multi-byte white space of Unicode is not modelled).
  \<open>filepath.Join\<close> of two elements joins the non-empty ones with the separator and cleans the
  result with \<open>filepath.Clean\<close>: empty and \<open>.\<close> elements go, a \<open>..\<close> element removes the
  element before it, and the empty result is \<open>.\<close>.
\<close>

definition is_space :: "char \<Rightarrow> bool" where
  "is_space c = (c \<in> set [CHR 0x09, NL, CHR 0x0B, CHR 0x0C, CHR 0x0D, CHR '' ''])"

definition strings_TrimSpace :: "string \<Rightarrow> string" where
  "strings_TrimSpace s = rev (dropWhile is_space (rev (dropWhile is_space s)))"

definition clean_elem :: "bool \<Rightarrow> string list \<Rightarrow> string \<Rightarrow> string list" where
  "clean_elem rooted kept e =
     (if e = ''..'' then
        (if kept \<noteq> [] \<and> last kept \<noteq> ''..'' then butlast kept
         else if rooted then kept
         else kept @ [e])
      else kept @ [e])"

definition filepath_Clean :: "string \<Rightarrow> string" where
  "filepath_Clean path =
     (if path = [] then ''.''
      else
        (let rooted = (hd path = CHR ''/'');
             elems = filter (\<lambda>e. e \<noteq> [] \<and> e \<noteq> ''.'') (strings_Split path (CHR ''/''));
             kept = foldl (clean_elem rooted) [] elems;
             cleaned = (if rooted then ''/'' else []) @ strings_Join kept ''/''
         in if cleaned = [] then ''.'' else cleaned))"

definition filepath_Join :: "string \<Rightarrow> string \<Rightarrow> string" where
  "filepath_Join a b =
     (if a \<noteq> [] then filepath_Clean (a @ ''/'' @ b)
      else if b \<noteq> [] then filepath_Clean b
      else [])"

text \<open>\<open>filepath.Base\<close>: the last element of the path, after the trailing separators are
  removed; \<open>.\<close> for the empty path and \<open>/\<close> for a path of separators only.\<close>

definition filepath_Base :: "string \<Rightarrow> string" where
  "filepath_Base path =
     (if path = [] then ''.''
      else
        (let stripped = rev (dropWhile (\<lambda>c. c = CHR ''/'') (rev path));
             element = rev (takeWhile (\<lambda>c. c \<noteq> CHR ''/'') (rev stripped))
         in if element = [] then ''/'' else element))"

text \<open>
  \<open>filepath.Match\<close>, which \<open>filepath.Glob\<close> applies to the names of a directory, for the
  patterns made of literal bytes, \<open>*\<close> (any sequence of non-separator bytes) and \<open>?\<close> (one
  non-separator byte); character classes \<open>[...]\<close> and the escape \<open>\\<close> are not modelled.
\<close>

fun filepath_Match :: "string \<Rightarrow> string \<Rightarrow> bool" where
  "filepath_Match [] [] = True"
| "filepath_Match [] (c # name) = False"
| "filepath_Match (p # pattern) [] = (p = CHR ''*'' \<and> filepath_Match pattern [])"
| "filepath_Match (p # pattern) (c # name) =
     (if p = CHR ''*'' then
        filepath_Match pattern (c # name) \<or> (c \<noteq> CHR ''/'' \<and> filepath_Match (p # pattern) name)
      else if p = CHR ''?'' then c \<noteq> CHR ''/'' \<and> filepath_Match pattern name
      else c = p \<and> filepath_Match pattern name)"

text \<open>The loop of \<open>parsePatterns\<close> over \<open>rawPatterns\<close>.\<close>

fun patterns_loop :: "string list \<Rightarrow> string \<Rightarrow> string list \<Rightarrow> string list" where
  "patterns_loop [] dir patterns = patterns"
| "patterns_loop (p # rawPatterns) dir patterns =
     (let trimmed = strings_TrimSpace p in
      if trimmed \<noteq> [] then
        (let fullPattern = filepath_Join dir trimmed
         in patterns_loop rawPatterns dir (patterns @ [fullPattern]))
      else patterns_loop rawPatterns dir patterns)"

definition parsePatterns :: "string \<Rightarrow> string \<Rightarrow> string list" where
  "parsePatterns patternStr dir =
     patterns_loop (strings_Split patternStr (CHR '','')) dir []"

section \<open>The command line\<close>

record flags =
  dirPtr :: string
  patternPtr :: string
  verbosePtr :: bool

text \<open>The values of the three flags of \<open>main\<close>, and their defaults.\<close>

definition default_flags :: flags where
  "default_flags =
     \<lparr>dirPtr = ''.'', patternPtr = ''*secret*.yaml,*secret*.yml'', verbosePtr = False\<rparr>"

section \<open>The cluster and the file system\<close>

text \<open>
  The object the API server returns for a Secret: \<open>Data\<close> is a \<open>map[string][]byte\<close>,
  \<open>StringData\<close> a \<open>map[string]string\<close>. The conversion \<open>string(value)\<close> of a byte slice keeps
  the bytes.
\<close>

record V1Secret =
  V1_Name :: string
  V1_Namespace :: string
  V1_Data :: "(string \<times> char list) list"
  V1_StringData :: gomap

definition string_of_bytes :: "char list \<Rightarrow> string" where
  "string_of_bytes b = b"

text \<open>An error of the API call: whether \<open>errors.IsNotFound\<close> holds of it, and its text.\<close>

record api_error =
  IsNotFound :: bool
  Error :: string

text \<open>\<open>clientset.CoreV1().Secrets(namespace).Get(ctx, name, opts)\<close> as a function of
  \<open>namespace\<close> and \<open>name\<close>.\<close>

type_synonym clientset = "string \<Rightarrow> string \<Rightarrow> api_error + V1Secret"

text \<open>
  What the program reads from outside: the result of \<open>getKubernetesClient\<close>, of
  \<open>filepath.Glob\<close> on a pattern, of \<open>ioutil.ReadFile\<close> on a path, and, for the contents of a
  file, the results of the successive calls of \<open>decoder.Decode\<close> before \<open>io.EOF\<close>. An error
  is its text.
\<close>

record world =
  KubernetesClient :: "string + clientset"
  Glob :: "string \<Rightarrow> string + string list"
  ReadFile :: "string \<Rightarrow> string + string"
  Decode :: "string \<Rightarrow> (string + KubernetesSecret) list"

section \<open>\<open>parseYAMLSecrets\<close>\<close>

text \<open>The \<open>for\<close> loop over the documents of a file: the log lines written and the secrets
  appended so far are carried along; an error of \<open>Decode\<close> other than \<open>io.EOF\<close> returns.\<close>

fun decode_loop ::
  "string \<Rightarrow> (string + KubernetesSecret) list \<Rightarrow> out list \<Rightarrow> KubernetesSecret list \<Rightarrow>
   out list \<times> (string + KubernetesSecret list)" where
  "decode_loop filePath [] logs secrets = (logs, Inr secrets)"
| "decode_loop filePath (Inl err # docs) logs secrets =
     (logs, Inl (''error unmarshaling YAML: '' @ err))"
| "decode_loop filePath (Inr secret # docs) logs secrets =
     (if Kind secret \<noteq> ''Secret'' then
        decode_loop filePath docs
          (logs @ [Log (''Skipping non-Secret kind: '' @ Kind secret @ '' in file '' @ [SQ] @
                        filepath_Base filePath @ [SQ, NL])]) secrets
      else if Name (Metadata secret) = [] then
        decode_loop filePath docs
          (logs @ [Log (''Skipping secret with missing name in file '' @ [SQ] @
                        filepath_Base filePath @ [SQ, NL])]) secrets
      else if Namespace (Metadata secret) = [] then
        decode_loop filePath docs
          (logs @ [Log (''Skipping secret with missing namespace in file '' @ [SQ] @
                        filepath_Base filePath @ [SQ, NL])]) secrets
      else if length (StringData secret) = 0 then
        decode_loop filePath docs
          (logs @ [Log (''Skipping secret '' @ [SQ] @ Name (Metadata secret) @ [SQ] @
                        '' in namespace '' @ [SQ] @ Namespace (Metadata secret) @ [SQ] @
                        '' with no '' @ [SQ] @ ''stringData'' @ [SQ] @ '' in file '' @ [SQ] @
                        filepath_Base filePath @ [SQ, NL])]) secrets
      else decode_loop filePath docs logs (secrets @ [secret]))"

definition parseYAMLSecrets ::
  "world \<Rightarrow> string \<Rightarrow> out list \<times> (string + KubernetesSecret list)" where
  "parseYAMLSecrets w filePath =
     (case ReadFile w filePath of
        Inl err \<Rightarrow> ([], Inl (''error reading file: '' @ err))
      | Inr data \<Rightarrow> decode_loop filePath (Decode w data) [] [])"

section \<open>\<open>getDeployedSecret\<close>\<close>

text \<open>\<open>for key, value := range secret.Data { decodedData[key] = string(value) }\<close>\<close>

fun copy_data :: "(string \<times> char list) list \<Rightarrow> gomap \<Rightarrow> gomap" where
  "copy_data [] decodedData = decodedData"
| "copy_data ((key, v) # m) decodedData =
     copy_data m (AList.update key (string_of_bytes v) decodedData)"

text \<open>\<open>for key, value := range secret.StringData { decodedData[key] = value }\<close>\<close>

fun copy_stringData :: "gomap \<Rightarrow> gomap \<Rightarrow> gomap" where
  "copy_stringData [] decodedData = decodedData"
| "copy_stringData ((key, v) # m) decodedData =
     copy_stringData m (AList.update key v decodedData)"

text \<open>The result \<open>(*DeployedSecret, error)\<close>: \<open>Inl\<close> is a non-\<open>nil\<close> error, \<open>Inr None\<close> is
  \<open>nil, nil\<close>, the answer for a secret the cluster does not have.\<close>

definition getDeployedSecret ::
  "clientset \<Rightarrow> string \<Rightarrow> string \<Rightarrow> string + DeployedSecret option" where
  "getDeployedSecret clientset namespace name =
     (case clientset namespace name of
        Inl err \<Rightarrow>
          (if IsNotFound err then Inr None
           else Inl (''error fetching secret: '' @ Error err))
      | Inr secret \<Rightarrow>
          (let decodedData = [];
               decodedData = copy_data (V1_Data secret) decodedData;
               decodedData = copy_stringData (V1_StringData secret) decodedData
           in Inr (Some \<lparr>DS_Name = V1_Name secret, DS_Namespace = V1_Namespace secret,
                         DS_Data = decodedData\<rparr>)))"

section \<open>\<open>main\<close>\<close>

text \<open>How the process ends: \<open>main\<close> returns, \<open>os.Exit\<close> is called with a status,
  \<open>log.Fatalf\<close> ends it, or a panic does.\<close>

datatype outcome = Returned | Exited nat | Fatal | Panicked panic

text \<open>The exit status of the process: 0 when \<open>main\<close> returns, 1 after \<open>log.Fatalf\<close>, 2 after
  a panic (the status the Go run time exits with).\<close>

fun exit_status :: "outcome \<Rightarrow> nat" where
  "exit_status Returned = 0"
| "exit_status (Exited n) = n"
| "exit_status Fatal = 1"
| "exit_status (Panicked p) = 2"

text \<open>\<open>for _, pattern := range patterns\<close>: the files matched so far, or the pattern and the
  error that end the program.\<close>

fun glob_loop :: "world \<Rightarrow> string list \<Rightarrow> string list \<Rightarrow> (string \<times> string) + string list" where
  "glob_loop w [] files = Inr files"
| "glob_loop w (pattern # patterns) files =
     (case Glob w pattern of
        Inl err \<Rightarrow> Inl (pattern, err)
      | Inr matchedFiles \<Rightarrow> glob_loop w patterns (files @ matchedFiles))"

text \<open>The four log lines of the two loops of \<open>main\<close>.\<close>

definition processing_line :: "string \<Rightarrow> out" where
  "processing_line file = Log (''Processing file: '' @ filepath_Base file @ [NL])"

definition parsing_error_line :: "string \<Rightarrow> string \<Rightarrow> out" where
  "parsing_error_line file err =
     Log (''Error parsing YAML file '' @ [SQ] @ filepath_Base file @ [SQ] @ '': '' @ err @ [NL])"

definition comparing_line :: "KubernetesSecret \<Rightarrow> out" where
  "comparing_line localSecret =
     Log (''Comparing Secret: '' @ Name (Metadata localSecret) @ '' in Namespace: '' @
          Namespace (Metadata localSecret) @ '' . . . '' @ [NL])"

definition retrieving_error_line :: "KubernetesSecret \<Rightarrow> string \<Rightarrow> out" where
  "retrieving_error_line localSecret err =
     Log (''Error retrieving deployed secret '' @ [SQ] @ Name (Metadata localSecret) @ [SQ] @
          '' in namespace '' @ [SQ] @ Namespace (Metadata localSecret) @ [SQ] @ '': '' @ err @
          [NL])"

text \<open>\<open>for _, localSecret := range localSecrets\<close>: \<open>Inl\<close> is a panic, with what had been
  written before it. Only a non-\<open>nil\<close> error of \<open>getDeployedSecret\<close> skips the secret;
  its result goes to \<open>compareSecrets\<close> as it is.\<close>

fun secrets_loop ::
  "clientset \<Rightarrow> KubernetesSecret list \<Rightarrow> run_state \<Rightarrow> (out list \<times> panic) + run_state" where
  "secrets_loop clientset [] st = Inr st"
| "secrets_loop clientset (localSecret # localSecrets) st =
     (let st = st\<lparr>stdout := stdout st @ [comparing_line localSecret]\<rparr>
      in case getDeployedSecret clientset (Namespace (Metadata localSecret))
                (Name (Metadata localSecret)) of
           Inl err \<Rightarrow>
             secrets_loop clientset localSecrets
               (st\<lparr>stdout := stdout st @ [retrieving_error_line localSecret err]\<rparr>)
         | Inr deployedSecret \<Rightarrow>
             (case compareSecrets localSecret deployedSecret of
                Inl p \<Rightarrow> Inl (stdout st, p)
              | Inr differences \<Rightarrow>
                  secrets_loop clientset localSecrets (report localSecret differences st)))"

text \<open>\<open>for _, file := range files\<close>\<close>

fun files_loop ::
  "world \<Rightarrow> clientset \<Rightarrow> string list \<Rightarrow> run_state \<Rightarrow> (out list \<times> panic) + run_state" where
  "files_loop w clientset [] st = Inr st"
| "files_loop w clientset (file # files) st =
     (let st = st\<lparr>stdout := stdout st @ [processing_line file]\<rparr>
      in case parseYAMLSecrets w file of
           (logs, Inl err) \<Rightarrow>
             files_loop w clientset files
               (st\<lparr>stdout := stdout st @ logs @ [parsing_error_line file err]\<rparr>)
         | (logs, Inr localSecrets) \<Rightarrow>
             (case secrets_loop clientset localSecrets (st\<lparr>stdout := stdout st @ logs\<rparr>) of
                Inl p \<Rightarrow> Inl p
              | Inr st' \<Rightarrow> files_loop w clientset files st'))"

definition summary_differences :: string where
  "summary_differences = ''Summary: Differences were found in some secrets.''"

definition summary_match :: string where
  "summary_match = ''Summary: All secrets match across environments.''"

text \<open>\<open>main\<close>, after \<open>flag.Parse\<close> has filled the flags: what is written, and how the process
  ends.\<close>

definition main :: "flags \<Rightarrow> world \<Rightarrow> out list \<times> outcome" where
  "main fl w =
     (case KubernetesClient w of
        Inl err \<Rightarrow> ([Log (''Failed to create Kubernetes client: '' @ err @ [NL])], Fatal)
      | Inr clientset \<Rightarrow>
          (let patterns = parsePatterns (patternPtr fl) (dirPtr fl) in
           case glob_loop w patterns [] of
             Inl (pattern, err) \<Rightarrow>
               ([Log (''Error processing pattern '' @ [SQ] @ pattern @ [SQ] @ '': '' @ err @
                      [NL])], Fatal)
           | Inr files \<Rightarrow>
               (if length files = 0 then
                  ([Log (''No YAML files matching the specified patterns were found in the directory.'' @
                         [NL])], Returned)
                else
                  (case files_loop w clientset files
                          \<lparr>stdout = [], globalDifferencesFound = False\<rparr> of
                     Inl (written, p) \<Rightarrow> (written, Panicked p)
                   | Inr st \<Rightarrow>
                       (if globalDifferencesFound st then
                          (stdout st @ [Print (summary_differences @ [NL])], Exited 1)
                        else
                          (stdout st @ [Print (summary_match @ [NL])], Exited 0))))))"

section \<open>Notions used in the statements\<close>

text \<open>The entry the loop of \<open>compareSecrets\<close> appends for a key, when it appends one.\<close>

definition entry_of :: "gomap \<Rightarrow> gomap \<Rightarrow> string \<Rightarrow> SecretDifference" where
  "entry_of localData deployedData key =
     \<lparr>Key = key, Local = map_of localData key, Deployed = map_of deployedData key\<rparr>"

text \<open>What one entry does to each accumulator of the report loop.\<close>

definition replace_step :: "SecretDifference \<Rightarrow> gomap \<Rightarrow> gomap" where
  "replace_step e acc =
     (case (Local e, Deployed e) of
        (Some localVal, Some deployedVal) \<Rightarrow> AList.update (Key e) deployedVal acc
      | _ \<Rightarrow> acc)"

definition missing_step :: "SecretDifference \<Rightarrow> gomap \<Rightarrow> gomap" where
  "missing_step e acc =
     (case (Local e, Deployed e) of
        (None, Some deployedVal) \<Rightarrow> AList.update (Key e) deployedVal acc
      | _ \<Rightarrow> acc)"

text \<open>What the report loop prints for one entry.\<close>

definition entry_lines :: "SecretDifference \<Rightarrow> out list" where
  "entry_lines e =
     (case (Local e, Deployed e) of
        (Some localVal, Some deployedVal) \<Rightarrow>
          [Print ('' - [DIFFERENT] '' @ Key e @ '':'' @ [NL]),
           Print (''   Local:     '' @ localVal @ [NL]),
           Print (''   Deployed:  '' @ deployedVal @ [NL, NL])]
      | (Some localVal, None) \<Rightarrow>
          [Print ('' - [ONLY IN LOCAL] '' @ Key e @ '':'' @ [NL]),
           Print (''   Value: '' @ localVal @ [NL, NL])]
      | (None, Some deployedVal) \<Rightarrow>
          [Print ('' - [ONLY IN DEPLOYED] '' @ Key e @ '':'' @ [NL]),
           Print (''   Value: '' @ deployedVal @ [NL, NL])]
      | (None, None) \<Rightarrow> [])"

text \<open>The state of the report loop before the first entry, \<open>p\<close> having been printed.\<close>

definition no_keys :: "out list \<Rightarrow> report_state" where
  "no_keys p = \<lparr>printed = p, missingLocalKeys = [], replaceLocalKeys = []\<rparr>"

text \<open>The local secrets a run loads from its files: those of every file that parses.\<close>

definition loaded :: "world \<Rightarrow> string list \<Rightarrow> KubernetesSecret list" where
  "loaded w files =
     concat (map (\<lambda>file. case snd (parseYAMLSecrets w file) of
                            Inl err \<Rightarrow> []
                          | Inr localSecrets \<Rightarrow> localSecrets) files)"

text \<open>The deployed secret is fetched and the comparison returns a non-empty sequence.\<close>

definition differs :: "clientset \<Rightarrow> KubernetesSecret \<Rightarrow> bool" where
  "differs clientset localSecret =
     (case getDeployedSecret clientset (Namespace (Metadata localSecret))
             (Name (Metadata localSecret)) of
        Inr (Some deployed) \<Rightarrow>
          (case compareSecrets localSecret (Some deployed) of
             Inr differences \<Rightarrow> differences \<noteq> []
           | Inl p \<Rightarrow> False)
      | _ \<Rightarrow> False)"

section \<open>Example inputs\<close>

definition secretA1 :: KubernetesSecret where
  "secretA1 =
     \<lparr>APIVersion = ''v1'', Kind = ''Secret'',
      Metadata = \<lparr>Name = ''app'', Namespace = ''staging''\<rparr>, Type = ''Opaque'',
      StringData = [(''A'', ''1''), (''B'', ''x'')]\<rparr>"

definition deployedA2 :: DeployedSecret where
  "deployedA2 =
     \<lparr>DS_Name = ''app'', DS_Namespace = ''staging'',
      DS_Data = [(''A'', ''2''), (''C'', ''y'')]\<rparr>"

definition diffs3 :: "SecretDifference list" where
  "diffs3 =
     [\<lparr>Key = ''A'', Local = Some ''1'', Deployed = Some ''2''\<rparr>,
      \<lparr>Key = ''B'', Local = Some ''x'', Deployed = None\<rparr>,
      \<lparr>Key = ''C'', Local = None, Deployed = Some ''y''\<rparr>]"

definition diffs_local_only :: "SecretDifference list" where
  "diffs_local_only = [\<lparr>Key = ''A'', Local = Some ''1'', Deployed = None\<rparr>]"

definition run_start :: run_state where
  "run_start = \<lparr>stdout = [], globalDifferencesFound = False\<rparr>"

definition v1_both :: V1Secret where
  "v1_both =
     \<lparr>V1_Name = ''app'', V1_Namespace = ''staging'',
      V1_Data = [(''A'', ''old''), (''C'', ''y'')],
      V1_StringData = [(''A'', ''new'')]\<rparr>"

definition secretA :: KubernetesSecret where
  "secretA =
     \<lparr>APIVersion = ''v1'', Kind = ''Secret'',
      Metadata = \<lparr>Name = ''app'', Namespace = ''staging''\<rparr>, Type = ''Opaque'',
      StringData = [(''A'', ''1'')]\<rparr>"

definition secretB :: KubernetesSecret where
  "secretB =
     \<lparr>APIVersion = ''v1'', Kind = ''Secret'',
      Metadata = \<lparr>Name = ''b'', Namespace = ''staging''\<rparr>, Type = ''Opaque'',
      StringData = [(''B'', ''x'')]\<rparr>"

text \<open>A cluster whose only secret is \<open>app\<close> in \<open>staging\<close>, with \<open>A\<close> set to \<open>v\<close>.\<close>

definition cluster :: "string \<Rightarrow> clientset" where
  "cluster v namespace name =
     (if namespace = ''staging'' \<and> name = ''app'' then
        Inr \<lparr>V1_Name = ''app'', V1_Namespace = ''staging'', V1_Data = [(''A'', v)],
             V1_StringData = []\<rparr>
      else Inl \<lparr>IsNotFound = True, Error = ''not found''\<rparr>)"

text \<open>A directory with the one file \<open>kube-secret-staging.yaml\<close>, which holds the documents
  \<open>docs\<close>.\<close>

definition one_file_world :: "clientset \<Rightarrow> KubernetesSecret list \<Rightarrow> world" where
  "one_file_world clientset docs =
     \<lparr>KubernetesClient = Inr clientset,
      Glob = (\<lambda>pattern. if pattern = ''*secret*.yaml'' then Inr [''kube-secret-staging.yaml'']
                         else Inr []),
      ReadFile = (\<lambda>path. Inr ''contents''),
      Decode = (\<lambda>data. map Inr docs)\<rparr>"

definition no_client_world :: world where
  "no_client_world =
     \<lparr>KubernetesClient = Inl ''error building kubeconfig: no configuration'',
      Glob = (\<lambda>pattern. Inr []),
      ReadFile = (\<lambda>path. Inl ''no such file''),
      Decode = (\<lambda>data. [])\<rparr>"

definition secretW :: KubernetesSecret where
  "secretW =
     \<lparr>APIVersion = ''v1'', Kind = ''Secret'',
      Metadata = \<lparr>Name = ''web'', Namespace = ''staging''\<rparr>, Type = ''Opaque'',
      StringData = [(''W'', ''1'')]\<rparr>"

text \<open>A cluster with two secrets in \<open>staging\<close>: \<open>app\<close> with \<open>A\<close> set to \<open>2\<close>, and \<open>web\<close> with
  \<open>W\<close> set to \<open>1\<close>.\<close>

definition wide_cluster :: clientset where
  "wide_cluster namespace name =
     (if namespace = ''staging'' \<and> name = ''app'' then
        Inr \<lparr>V1_Name = ''app'', V1_Namespace = ''staging'', V1_Data = [(''A'', ''2'')],
             V1_StringData = []\<rparr>
      else if namespace = ''staging'' \<and> name = ''web'' then
        Inr \<lparr>V1_Name = ''web'', V1_Namespace = ''staging'', V1_Data = [(''W'', ''1'')],
             V1_StringData = []\<rparr>
      else Inl \<lparr>IsNotFound = True, Error = ''not found''\<rparr>)"

text \<open>A directory with one file whose second document does not decode.\<close>

definition broken_file_world :: "clientset \<Rightarrow> world" where
  "broken_file_world clientset =
     \<lparr>KubernetesClient = Inr clientset,
      Glob = (\<lambda>pattern. if pattern = ''*secret*.yaml'' then Inr [''kube-secret-staging.yaml'']
                         else Inr []),
      ReadFile = (\<lambda>path. Inr ''contents''),
      Decode = (\<lambda>data. [Inr secretA, Inl ''cannot unmarshal'', Inr secretW])\<rparr>"

text \<open>A directory with two files: in the first a document of another kind, a valid secret
  and then a document that does not decode; in the second a secret without \<open>stringData\<close>
  and a valid one.\<close>

definition two_file_world :: "clientset \<Rightarrow> world" where
  "two_file_world clientset =
     \<lparr>KubernetesClient = Inr clientset,
      Glob = (\<lambda>pattern. if pattern = ''*secret*.yaml''
                         then Inr [''a-secret.yaml'', ''b-secret.yaml''] else Inr []),
      ReadFile = (\<lambda>path. Inr path),
      Decode = (\<lambda>data.
        if data = ''a-secret.yaml''
        then [Inr (secretW\<lparr>Kind := ''ConfigMap''\<rparr>), Inr secretW, Inl ''cannot unmarshal'']
        else [Inr (secretA\<lparr>StringData := []\<rparr>), Inr secretA])\<rparr>"

text \<open>A world in which no pattern expands.\<close>

definition bad_pattern_world :: world where
  "bad_pattern_world =
     \<lparr>KubernetesClient = Inr (cluster ''2''),
      Glob = (\<lambda>pattern. Inl ''syntax error in pattern''),
      ReadFile = (\<lambda>path. Inl ''no such file''),
      Decode = (\<lambda>data. [])\<rparr>"

section \<open>Properties of \<open>compareSecrets\<close>\<close>

lemma set_add_keys: "set (add_keys m keysSet) = fst ` set m \<union> set keysSet"
  by (induction m keysSet rule: add_keys.induct) (auto simp: set_add_def)

lemma distinct_add_keys: "distinct keysSet \<Longrightarrow> distinct (add_keys m keysSet)"
  by (induction m keysSet rule: add_keys.induct) (auto simp: set_add_def)

lemma compare_keys_acc:
  "compare_keys keys l d differences =
     differences @ map (entry_of l d) (filter (\<lambda>k. map_of l k \<noteq> map_of d k) keys)"
proof (induction keys arbitrary: differences)
  case Nil
  show ?case by simp
next
  case (Cons key keys)
  show ?case
    by (cases "map_of l key"; cases "map_of d key")
       (simp_all add: Cons.IH entry_of_def Let_def)
qed

lemma compare_keys_order:
  "set keys = set keys' \<Longrightarrow>
   set (compare_keys keys l d []) = set (compare_keys keys' l d [])"
  by (simp add: compare_keys_acc)

lemma compareSecrets_Some:
  "compareSecrets localSecret (Some d) =
     Inr (map (entry_of (StringData localSecret) (DS_Data d))
            (filter (\<lambda>k. map_of (StringData localSecret) k \<noteq> map_of (DS_Data d) k)
               (add_keys (DS_Data d) (add_keys (StringData localSecret) []))))"
  by (simp add: compareSecrets_def compare_keys_acc)

lemma map_of_differs_in_keys:
  "map_of l k \<noteq> map_of d k \<Longrightarrow> k \<in> fst ` set l \<union> fst ` set d"
  by (metis UnI1 UnI2 domIff dom_map_of_conv_image_fst)

text \<open>
  Claim C9 (idempotence of the Diff Engine): for every map \<open>M\<close>, \<open>compareSecrets\<close> applied
  to \<open>M\<close> as the local \<open>stringData\<close> and as the deployed \<open>Data\<close> returns the empty
  difference sequence.
\<close>

theorem compareSecrets_same_map_empty:
  "compareSecrets (localSecret\<lparr>StringData := M\<rparr>) (Some (deployed\<lparr>DS_Data := M\<rparr>)) = Inr []"
  by (simp add: compareSecrets_Some)

lemma Key_entry_of: "Key (entry_of l d k) = k"
  by (simp add: entry_of_def)

text \<open>
  Claim C2: for every local secret and every deployed secret, \<open>compareSecrets\<close> returns a
  sequence of entries with pairwise different keys; a key has an entry exactly when the
  two maps disagree on it (it is in one map only, or in both with unequal values, the
  values compared as byte strings); the entry of a key carries the local value and the
  deployed value of that key; so every entry is ONLY_IN_LOCAL (local value set, deployed
  absent), ONLY_IN_DEPLOYED (deployed value set, local absent) or DIFFERENT (both set and
  unequal): at least one value is present, and two present values are unequal.
\<close>

theorem compareSecrets_entries:
  "\<exists>differences.
     compareSecrets localSecret (Some deployed) = Inr differences \<and>
     distinct (map Key differences) \<and>
     (\<forall>k. k \<in> Key ` set differences \<longleftrightarrow>
          map_of (StringData localSecret) k \<noteq> map_of (DS_Data deployed) k) \<and>
     (\<forall>e \<in> set differences.
        Local e = map_of (StringData localSecret) (Key e) \<and>
        Deployed e = map_of (DS_Data deployed) (Key e)) \<and>
     (\<forall>e \<in> set differences.
        (classify e = Some ONLY_IN_LOCAL \<and> Local e \<noteq> None \<and> Deployed e = None) \<or>
        (classify e = Some ONLY_IN_DEPLOYED \<and> Local e = None \<and> Deployed e \<noteq> None) \<or>
        (classify e = Some DIFFERENT \<and> Local e \<noteq> None \<and> Deployed e \<noteq> None \<and>
         Local e \<noteq> Deployed e))"
proof -
  let ?l = "StringData localSecret" and ?d = "DS_Data deployed"
  let ?keys = "add_keys ?d (add_keys ?l [])"
  let ?ds = "map (entry_of ?l ?d) (filter (\<lambda>k. map_of ?l k \<noteq> map_of ?d k) ?keys)"
  have res: "compareSecrets localSecret (Some deployed) = Inr ?ds"
    by (rule compareSecrets_Some)
  have keys: "map Key ?ds = filter (\<lambda>k. map_of ?l k \<noteq> map_of ?d k) ?keys"
    by (simp add: comp_def Key_entry_of)
  have dist: "distinct (map Key ?ds)"
    unfolding keys by (simp add: distinct_add_keys)
  have set_keys: "set ?keys = fst ` set ?l \<union> fst ` set ?d"
    by (auto simp: set_add_keys)
  have cover: "\<forall>k. k \<in> Key ` set ?ds \<longleftrightarrow> map_of ?l k \<noteq> map_of ?d k"
  proof
    fix k
    have "Key ` set ?ds = set (map Key ?ds)" by (simp only: set_map)
    also have "\<dots> = {k \<in> set ?keys. map_of ?l k \<noteq> map_of ?d k}"
      unfolding keys by simp
    finally show "k \<in> Key ` set ?ds \<longleftrightarrow> map_of ?l k \<noteq> map_of ?d k"
      using map_of_differs_in_keys [of ?l k ?d] set_keys by blast
  qed
  have vals: "\<forall>e \<in> set ?ds. Local e = map_of ?l (Key e) \<and> Deployed e = map_of ?d (Key e)"
    by (auto simp: entry_of_def)
  have cls: "\<forall>e \<in> set ?ds.
        (classify e = Some ONLY_IN_LOCAL \<and> Local e \<noteq> None \<and> Deployed e = None) \<or>
        (classify e = Some ONLY_IN_DEPLOYED \<and> Local e = None \<and> Deployed e \<noteq> None) \<or>
        (classify e = Some DIFFERENT \<and> Local e \<noteq> None \<and> Deployed e \<noteq> None \<and>
         Local e \<noteq> Deployed e)"
    by (auto simp: entry_of_def classify_def)
  from res dist cover vals cls show ?thesis by blast
qed

theorem compareSecrets_entries_witness:
  "compareSecrets secretA1 (Some deployedA2) =
     Inr [\<lparr>Key = ''A'', Local = Some ''1'', Deployed = Some ''2''\<rparr>,
          \<lparr>Key = ''B'', Local = Some ''x'', Deployed = None\<rparr>,
          \<lparr>Key = ''C'', Local = None, Deployed = Some ''y''\<rparr>] \<and>
   classify \<lparr>Key = ''A'', Local = Some ''1'', Deployed = Some ''2''\<rparr> = Some DIFFERENT \<and>
   classify \<lparr>Key = ''B'', Local = Some ''x'', Deployed = None\<rparr> = Some ONLY_IN_LOCAL \<and>
   classify \<lparr>Key = ''C'', Local = None, Deployed = Some ''y''\<rparr> = Some ONLY_IN_DEPLOYED"
  using compareSecrets_entries [of secretA1 deployedA2]
  by (simp add: compareSecrets_def secretA1_def deployedA2_def set_add_def classify_def)

theorem compareSecrets_same_map_empty_witness:
  "compareSecrets (secretA1\<lparr>StringData := [(''A'', ''1'')]\<rparr>)
     (Some (deployedA2\<lparr>DS_Data := [(''A'', ''1'')]\<rparr>)) = Inr []"
  using compareSecrets_same_map_empty
    [where localSecret = secretA1 and M = "[(''A'', ''1'')]" and deployed = deployedA2]
  by simp

section \<open>Properties of \<open>formatYAMLValue\<close>\<close>

lemma indent_lines_acc:
  "indent_lines lines formattedLines = formattedLines @ map (\<lambda>line. ''    '' @ line) lines"
  by (induction lines arbitrary: formattedLines) simp_all

lemma strings_Split_nonempty: "strings_Split s sep \<noteq> []"
  by (induction s) (simp_all split: list.split)

lemma strings_Split_no_sep: "line \<in> set (strings_Split s sep) \<Longrightarrow> sep \<notin> set line"
proof (induction s arbitrary: line)
  case Nil
  then show ?case by simp
next
  case (Cons c s)
  then show ?case
    by (cases "strings_Split s sep") (auto split: if_splits)
qed

lemma strings_Join_Cons:
  "elems \<noteq> [] \<Longrightarrow> strings_Join (a # elems) sep = a @ sep @ strings_Join elems sep"
  by (cases elems) simp_all

lemma strings_Join_Split: "strings_Join (strings_Split s sep) [sep] = s"
proof (induction s)
  case Nil
  show ?case by simp
next
  case (Cons c s)
  show ?case
  proof (cases "strings_Split s sep")
    case Nil
    then show ?thesis using strings_Split_nonempty [of s sep] by simp
  next
    case (Cons line lines)
    then show ?thesis
      using Cons.IH strings_Split_nonempty [of s sep]
      by (cases lines) (auto simp: strings_Join_Cons)
  qed
qed

lemma strings_ReplaceAll_concat:
  "strings_ReplaceAll s old new = concat (map (\<lambda>c. if c = old then new else [c]) s)"
  by (induction s) simp_all

lemma strings_ReplaceAll_absent: "old \<notin> set s \<Longrightarrow> strings_ReplaceAll s old new = s"
  by (induction s) auto

text \<open>
  Claim C4: when the value contains a newline, \<open>formatYAMLValue\<close> returns \<open>|-\<close>, a
  newline, and the lines of the value (the pieces between its newlines, none of which
  contains one), each behind four spaces, joined by newlines. Otherwise it returns the
  value between two double quotes, every double quote of the value replaced by a backslash
  and a double quote and every other byte kept; a value with neither newline nor double
  quote comes back between two double quotes unchanged.
\<close>

theorem formatYAMLValue_cases:
  "(NL \<in> set v \<longrightarrow>
      (\<exists>lines. lines \<noteq> [] \<and> (\<forall>line \<in> set lines. NL \<notin> set line) \<and>
         strings_Join lines [NL] = v \<and>
         formatYAMLValue v =
           ''|-'' @ [NL] @ strings_Join (map (\<lambda>line. ''    '' @ line) lines) [NL])) \<and>
   (NL \<notin> set v \<longrightarrow>
      formatYAMLValue v =
        [DQ] @ concat (map (\<lambda>c. if c = DQ then [BSL, DQ] else [c]) v) @ [DQ]) \<and>
   (NL \<notin> set v \<and> DQ \<notin> set v \<longrightarrow> formatYAMLValue v = [DQ] @ v @ [DQ])"
proof (intro conjI impI)
  assume nl: "NL \<in> set v"
  let ?lines = "strings_Split v NL"
  have "formatYAMLValue v =
          ''|-'' @ [NL] @ strings_Join (map (\<lambda>line. ''    '' @ line) ?lines) [NL]"
    using nl by (simp add: formatYAMLValue_def indent_lines_acc)
  moreover have "?lines \<noteq> []" by (rule strings_Split_nonempty)
  moreover have "\<forall>line \<in> set ?lines. NL \<notin> set line"
    using strings_Split_no_sep by blast
  moreover have "strings_Join ?lines [NL] = v" by (rule strings_Join_Split)
  ultimately show "\<exists>lines. lines \<noteq> [] \<and> (\<forall>line \<in> set lines. NL \<notin> set line) \<and>
         strings_Join lines [NL] = v \<and>
         formatYAMLValue v =
           ''|-'' @ [NL] @ strings_Join (map (\<lambda>line. ''    '' @ line) lines) [NL]"
    by blast
next
  assume "NL \<notin> set v"
  then show "formatYAMLValue v =
        [DQ] @ concat (map (\<lambda>c. if c = DQ then [BSL, DQ] else [c]) v) @ [DQ]"
    by (simp add: formatYAMLValue_def strings_ReplaceAll_concat)
next
  assume "NL \<notin> set v \<and> DQ \<notin> set v"
  then show "formatYAMLValue v = [DQ] @ v @ [DQ]"
    by (simp add: formatYAMLValue_def strings_ReplaceAll_absent)
qed

theorem formatYAMLValue_cases_witness:
  "NL \<in> set (''line1'' @ [NL] @ ''line2'') \<and>
   formatYAMLValue (''line1'' @ [NL] @ ''line2'') =
     ''|-'' @ [NL] @ ''    line1'' @ [NL] @ ''    line2'' \<and>
   NL \<notin> set (''say '' @ [DQ] @ ''hi'' @ [DQ]) \<and>
   formatYAMLValue (''say '' @ [DQ] @ ''hi'' @ [DQ]) =
     [DQ] @ ''say '' @ [BSL, DQ] @ ''hi'' @ [BSL, DQ] @ [DQ] \<and>
   NL \<notin> set ''true'' \<and> DQ \<notin> set ''true'' \<and>
   formatYAMLValue ''true'' = [DQ] @ ''true'' @ [DQ]"
  using formatYAMLValue_cases [of "''line1'' @ [NL] @ ''line2''"]
    formatYAMLValue_cases [of "''say '' @ [DQ] @ ''hi'' @ [DQ]"]
    formatYAMLValue_cases [of "''true''"]
  by (simp add: formatYAMLValue_def)

section \<open>Properties of the report\<close>

lemma diff_loop_replace:
  "replaceLocalKeys (diff_loop ds s) = fold replace_step ds (replaceLocalKeys s)"
proof (induction ds arbitrary: s)
  case Nil
  show ?case by simp
next
  case (Cons e ds)
  show ?case
    by (cases "Local e"; cases "Deployed e") (simp_all add: Cons.IH replace_step_def)
qed

lemma diff_loop_missing:
  "missingLocalKeys (diff_loop ds s) = fold missing_step ds (missingLocalKeys s)"
proof (induction ds arbitrary: s)
  case Nil
  show ?case by simp
next
  case (Cons e ds)
  show ?case
    by (cases "Local e"; cases "Deployed e") (simp_all add: Cons.IH missing_step_def)
qed

lemma diff_loop_printed:
  "x \<in> set (printed (diff_loop ds s)) \<Longrightarrow>
   x \<in> set (printed s) \<or> (\<exists>t. x = Print (CHR '' '' # t))"
proof (induction ds arbitrary: s)
  case Nil
  then show ?case by simp
next
  case (Cons e ds)
  from Cons.prems show ?case
    by (cases "Local e"; cases "Deployed e") (auto dest!: Cons.IH)
qed

lemma replace_step_keys:
  "fst ` set (replace_step e acc) =
     fst ` set acc \<union> (if classify e = Some DIFFERENT then {Key e} else {})"
  by (cases "Local e"; cases "Deployed e")
     (auto simp: classify_def replace_step_def dom_update)

lemma missing_step_keys:
  "fst ` set (missing_step e acc) =
     fst ` set acc \<union> (if classify e = Some ONLY_IN_DEPLOYED then {Key e} else {})"
  by (cases "Local e"; cases "Deployed e")
     (auto simp: classify_def missing_step_def dom_update)

lemma replace_step_map:
  "map_of (replace_step e acc) k =
     (if classify e = Some DIFFERENT \<and> k = Key e then Deployed e else map_of acc k)"
  by (cases "Local e"; cases "Deployed e")
     (auto simp: classify_def replace_step_def update_conv')

lemma missing_step_map:
  "map_of (missing_step e acc) k =
     (if classify e = Some ONLY_IN_DEPLOYED \<and> k = Key e then Deployed e else map_of acc k)"
  by (cases "Local e"; cases "Deployed e")
     (auto simp: classify_def missing_step_def update_conv')

lemma replace_fold_keys:
  "fst ` set (fold replace_step ds acc) =
     fst ` set acc \<union> Key ` {e \<in> set ds. classify e = Some DIFFERENT}"
  by (induction ds arbitrary: acc) (auto simp: replace_step_keys)

lemma missing_fold_keys:
  "fst ` set (fold missing_step ds acc) =
     fst ` set acc \<union> Key ` {e \<in> set ds. classify e = Some ONLY_IN_DEPLOYED}"
  by (induction ds arbitrary: acc) (auto simp: missing_step_keys)

lemma replace_fold_other:
  "k \<notin> Key ` set ds \<Longrightarrow> map_of (fold replace_step ds acc) k = map_of acc k"
  by (induction ds arbitrary: acc) (auto simp: replace_step_map)

lemma missing_fold_other:
  "k \<notin> Key ` set ds \<Longrightarrow> map_of (fold missing_step ds acc) k = map_of acc k"
  by (induction ds arbitrary: acc) (auto simp: missing_step_map)

lemma replace_fold_value:
  "distinct (map Key ds) \<Longrightarrow> e \<in> set ds \<Longrightarrow> classify e = Some DIFFERENT \<Longrightarrow>
   map_of (fold replace_step ds acc) (Key e) = Deployed e"
proof (induction ds arbitrary: acc)
  case Nil
  then show ?case by simp
next
  case (Cons x ds)
  show ?case
  proof (cases "e = x")
    case True
    with Cons.prems have notin: "Key x \<notin> Key ` set ds" by auto
    show ?thesis
      using True Cons.prems(3) by (simp add: replace_fold_other [OF notin] replace_step_map)
  next
    case False
    with Cons.prems have "e \<in> set ds" "distinct (map Key ds)" by auto
    then show ?thesis using Cons.IH Cons.prems(3) by simp
  qed
qed

lemma missing_fold_value:
  "distinct (map Key ds) \<Longrightarrow> e \<in> set ds \<Longrightarrow> classify e = Some ONLY_IN_DEPLOYED \<Longrightarrow>
   map_of (fold missing_step ds acc) (Key e) = Deployed e"
proof (induction ds arbitrary: acc)
  case Nil
  then show ?case by simp
next
  case (Cons x ds)
  show ?case
  proof (cases "e = x")
    case True
    with Cons.prems have notin: "Key x \<notin> Key ` set ds" by auto
    show ?thesis
      using True Cons.prems(3) by (simp add: missing_fold_other [OF notin] missing_step_map)
  next
    case False
    with Cons.prems have "e \<in> set ds" "distinct (map Key ds)" by auto
    then show ?thesis using Cons.IH Cons.prems(3) by simp
  qed
qed

lemma heading_not_in_snippet:
  "h \<noteq> h' \<Longrightarrow> hd h' \<notin> {CHR '' '', CHR 0x60, CHR ''s'', NL} \<Longrightarrow> h' \<noteq> [] \<Longrightarrow>
   Print (h' @ [NL]) \<notin> set (snippet h keys)"
  by (cases h') (auto simp: snippet_def)

lemma heading_in_snippet: "Print (h @ [NL]) \<in> set (snippet h keys)"
  by (simp add: snippet_def)

lemma report_printed:
  "\<exists>new. stdout (report localSecret ds st) = stdout st @ new \<and>
     (Print (merge_heading @ [NL]) \<in> set new \<longleftrightarrow>
        replaceLocalKeys (diff_loop ds (no_keys [])) \<noteq> []) \<and>
     (Print (add_heading @ [NL]) \<in> set new \<longleftrightarrow>
        missingLocalKeys (diff_loop ds (no_keys [])) \<noteq> [])"
proof (cases "ds = []")
  case True
  then show ?thesis
    by (simp add: report_def no_keys_def header_def merge_heading_def add_heading_def)
next
  case False
  let ?s = "diff_loop ds (no_keys [Print (header localSecret @ ''Differences found:'' @ [NL])])"
  have r: "replaceLocalKeys ?s = replaceLocalKeys (diff_loop ds (no_keys []))"
    and m: "missingLocalKeys ?s = missingLocalKeys (diff_loop ds (no_keys []))"
    by (simp_all add: diff_loop_replace diff_loop_missing no_keys_def)
  have p1: "Print (merge_heading @ [NL]) \<notin> set (printed ?s)"
    using diff_loop_printed [of "Print (merge_heading @ [NL])" ds
      "no_keys [Print (header localSecret @ ''Differences found:'' @ [NL])]"]
    by (auto simp: no_keys_def header_def merge_heading_def)
  have p2: "Print (add_heading @ [NL]) \<notin> set (printed ?s)"
    using diff_loop_printed [of "Print (add_heading @ [NL])" ds
      "no_keys [Print (header localSecret @ ''Differences found:'' @ [NL])]"]
    by (auto simp: no_keys_def header_def add_heading_def)
  have q1: "Print (merge_heading @ [NL]) \<notin> set (snippet add_heading keys)" for keys
    by (rule heading_not_in_snippet) (simp_all add: merge_heading_def add_heading_def)
  have q2: "Print (add_heading @ [NL]) \<notin> set (snippet merge_heading keys)" for keys
    by (rule heading_not_in_snippet) (simp_all add: merge_heading_def add_heading_def)
  show ?thesis
    using False p1 p2 q1 q2 r m
    by (auto simp: report_def Let_def no_keys_def [symmetric] heading_in_snippet)
qed


lemma diff_loop_printed_exact:
  "printed (diff_loop ds s) = printed s @
     concat (map (\<lambda>e. case (Local e, Deployed e) of
          (Some localVal, Some deployedVal) \<Rightarrow>
            [Print ('' - [DIFFERENT] '' @ Key e @ '':'' @ [NL]),
             Print (''   Local:     '' @ localVal @ [NL]),
             Print (''   Deployed:  '' @ deployedVal @ [NL, NL])]
        | (Some localVal, None) \<Rightarrow>
            [Print ('' - [ONLY IN LOCAL] '' @ Key e @ '':'' @ [NL]),
             Print (''   Value: '' @ localVal @ [NL, NL])]
        | (None, Some deployedVal) \<Rightarrow>
            [Print ('' - [ONLY IN DEPLOYED] '' @ Key e @ '':'' @ [NL]),
             Print (''   Value: '' @ deployedVal @ [NL, NL])]
        | (None, None) \<Rightarrow> []) ds)"
proof (induction ds arbitrary: s)
  case Nil
  show ?case by simp
next
  case (Cons e ds)
  show ?case
    by (cases "Local e"; cases "Deployed e") (simp_all add: Cons.IH)
qed

lemma report_stdout_exact:
  "stdout (report localSecret ds st) = stdout st @
     (if ds = [] then
        [Print (''=== '' @ Name (Metadata localSecret) @ '' (Namespace: '' @
                Namespace (Metadata localSecret) @ '') ==='' @ [NL] @
                ''All secrets match between the local file and the deployed Kubernetes secret.'' @
                [NL, NL])]
      else
        [Print (''=== '' @ Name (Metadata localSecret) @ '' (Namespace: '' @
                Namespace (Metadata localSecret) @ '') ==='' @ [NL] @
                ''Differences found:'' @ [NL])] @
        concat (map (\<lambda>e. case (Local e, Deployed e) of
            (Some localVal, Some deployedVal) \<Rightarrow>
              [Print ('' - [DIFFERENT] '' @ Key e @ '':'' @ [NL]),
               Print (''   Local:     '' @ localVal @ [NL]),
               Print (''   Deployed:  '' @ deployedVal @ [NL, NL])]
          | (Some localVal, None) \<Rightarrow>
              [Print ('' - [ONLY IN LOCAL] '' @ Key e @ '':'' @ [NL]),
               Print (''   Value: '' @ localVal @ [NL, NL])]
          | (None, Some deployedVal) \<Rightarrow>
              [Print ('' - [ONLY IN DEPLOYED] '' @ Key e @ '':'' @ [NL]),
               Print (''   Value: '' @ deployedVal @ [NL, NL])]
          | (None, None) \<Rightarrow> []) ds) @
        (if replaceLocalKeys (diff_loop ds (no_keys p)) = [] then []
         else
           [Print (''Merge following key-value pairs into your local file to match deployed secrets:'' @ [NL]),
            Print (''```yaml'' @ [NL]),
            Print (''stringData:'' @ [NL])] @
           map (\<lambda>(key, v). Print (''  '' @ key @ '': '' @ formatYAMLValue v @ [NL]))
             (replaceLocalKeys (diff_loop ds (no_keys p))) @
           [Print (''```'' @ [NL]), Print [NL]]) @
        (if missingLocalKeys (diff_loop ds (no_keys p)) = [] then []
         else
           [Print (''Following should be added locally to make it match the deployed secrets:'' @ [NL]),
            Print (''```yaml'' @ [NL]),
            Print (''stringData:'' @ [NL])] @
           map (\<lambda>(key, v). Print (''  '' @ key @ '': '' @ formatYAMLValue v @ [NL]))
             (missingLocalKeys (diff_loop ds (no_keys p))) @
           [Print (''```'' @ [NL]), Print [NL]]))"
proof (cases "ds = []")
  case True
  then show ?thesis by (simp add: report_def header_def)
next
  case False
  let ?s = "diff_loop ds (no_keys [Print (header localSecret @ ''Differences found:'' @ [NL])])"
  have r: "replaceLocalKeys ?s = replaceLocalKeys (diff_loop ds (no_keys p))"
    and m: "missingLocalKeys ?s = missingLocalKeys (diff_loop ds (no_keys p))"
    by (simp_all add: diff_loop_replace diff_loop_missing no_keys_def)
  have pr: "printed ?s = [Print (header localSecret @ ''Differences found:'' @ [NL])] @
     concat (map (\<lambda>e. case (Local e, Deployed e) of
          (Some localVal, Some deployedVal) \<Rightarrow>
            [Print ('' - [DIFFERENT] '' @ Key e @ '':'' @ [NL]),
             Print (''   Local:     '' @ localVal @ [NL]),
             Print (''   Deployed:  '' @ deployedVal @ [NL, NL])]
        | (Some localVal, None) \<Rightarrow>
            [Print ('' - [ONLY IN LOCAL] '' @ Key e @ '':'' @ [NL]),
             Print (''   Value: '' @ localVal @ [NL, NL])]
        | (None, Some deployedVal) \<Rightarrow>
            [Print ('' - [ONLY IN DEPLOYED] '' @ Key e @ '':'' @ [NL]),
             Print (''   Value: '' @ deployedVal @ [NL, NL])]
        | (None, None) \<Rightarrow> []) ds)"
    by (simp only: diff_loop_printed_exact) (simp add: no_keys_def)
  have rep: "stdout (report localSecret ds st) = stdout st @ printed ?s @
      (if replaceLocalKeys ?s = [] then [] else snippet merge_heading (replaceLocalKeys ?s)) @
      (if missingLocalKeys ?s = [] then [] else snippet add_heading (missingLocalKeys ?s))"
    using False by (simp add: report_def Let_def no_keys_def [symmetric])
  show ?thesis
    unfolding rep pr r m using False
    by (simp add: snippet_def merge_heading_def add_heading_def header_def)
qed

lemma diff_loop_printed_lines:
  "printed (diff_loop ds s) = printed s @ concat (map entry_lines ds)"
proof (induction ds arbitrary: s)
  case Nil
  show ?case by simp
next
  case (Cons e ds)
  show ?case
    by (cases "Local e"; cases "Deployed e") (simp_all add: Cons.IH entry_lines_def)
qed

lemma entry_lines_print: "x \<in> set (entry_lines e) \<Longrightarrow> \<exists>t. x = Print t"
  by (cases "Local e"; cases "Deployed e") (auto simp: entry_lines_def)

lemma entries_print: "x \<in> set (concat (map entry_lines ds)) \<Longrightarrow> \<exists>t. x = Print t"
  by (induction ds) (auto dest: entry_lines_print)

lemma snippet_prints: "x \<in> set (snippet h keys) \<Longrightarrow> \<exists>t. x = Print t"
  by (auto simp: snippet_def)

lemma report_prints:
  "\<exists>new. stdout (report localSecret ds st) = stdout st @ new \<and> (\<forall>x \<in> set new. \<exists>t. x = Print t)"
proof (cases "ds = []")
  case True
  then show ?thesis by (simp add: report_def)
next
  case False
  let ?s = "diff_loop ds (no_keys [Print (header localSecret @ ''Differences found:'' @ [NL])])"
  have rep: "stdout (report localSecret ds st) = stdout st @ (printed ?s @
      (if replaceLocalKeys ?s = [] then [] else snippet merge_heading (replaceLocalKeys ?s)) @
      (if missingLocalKeys ?s = [] then [] else snippet add_heading (missingLocalKeys ?s)))"
    using False by (simp add: report_def Let_def no_keys_def [symmetric])
  have "\<exists>t. x = Print t" if "x \<in> set (printed ?s)" for x
    using that entries_print [of x ds]
    by (auto simp: diff_loop_printed_lines no_keys_def)
  then have "\<forall>x \<in> set (printed ?s @
      (if replaceLocalKeys ?s = [] then [] else snippet merge_heading (replaceLocalKeys ?s)) @
      (if missingLocalKeys ?s = [] then [] else snippet add_heading (missingLocalKeys ?s))).
      \<exists>t. x = Print t"
    using snippet_prints by (auto split: if_splits)
  with rep show ?thesis by blast
qed

text \<open>
  Claim C5: while the report loop runs over a difference sequence, the keys it puts into
  \<open>replaceLocalKeys\<close> are exactly the keys of the DIFFERENT entries and the keys it puts
  into \<open>missingLocalKeys\<close> exactly the keys of the ONLY_IN_DEPLOYED entries; when the keys
  of the sequence are pairwise different (as those \<open>compareSecrets\<close> returns are), each
  such key is valued by the deployed value of its entry and is not in the other map, and
  the key of an ONLY_IN_LOCAL entry is in neither map. The heading of the merge snippet
  is printed exactly when \<open>replaceLocalKeys\<close> is not empty and the heading of the add
  snippet exactly when \<open>missingLocalKeys\<close> is not empty. What the report writes is, for
  an empty sequence, the header with the line that all secrets match; otherwise the
  header, the lines of the entries in their order, then, when \<open>replaceLocalKeys\<close> is not
  empty, the merge snippet (its heading, the opening fence, \<open>stringData:\<close>, one line
  \<open>key: formatted value\<close> for each entry of \<open>replaceLocalKeys\<close>, the closing fence and an
  empty line), then, when \<open>missingLocalKeys\<close> is not empty, the add snippet, made in the
  same way from \<open>missingLocalKeys\<close>; and nothing else.
\<close>

theorem report_accumulators:
  "(fst ` set (replaceLocalKeys (diff_loop ds (no_keys p))) =
     Key ` {e \<in> set ds. classify e = Some DIFFERENT} \<and>
   fst ` set (missingLocalKeys (diff_loop ds (no_keys p))) =
     Key ` {e \<in> set ds. classify e = Some ONLY_IN_DEPLOYED} \<and>
   (distinct (map Key ds) \<longrightarrow>
      (\<forall>e \<in> set ds.
         (classify e = Some DIFFERENT \<longrightarrow>
            map_of (replaceLocalKeys (diff_loop ds (no_keys p))) (Key e) = Deployed e \<and>
            map_of (missingLocalKeys (diff_loop ds (no_keys p))) (Key e) = None) \<and>
         (classify e = Some ONLY_IN_DEPLOYED \<longrightarrow>
            map_of (missingLocalKeys (diff_loop ds (no_keys p))) (Key e) = Deployed e \<and>
            map_of (replaceLocalKeys (diff_loop ds (no_keys p))) (Key e) = None) \<and>
         (classify e = Some ONLY_IN_LOCAL \<longrightarrow>
            map_of (replaceLocalKeys (diff_loop ds (no_keys p))) (Key e) = None \<and>
            map_of (missingLocalKeys (diff_loop ds (no_keys p))) (Key e) = None))) \<and>
   (\<exists>new. stdout (report localSecret ds st) = stdout st @ new \<and>
      (Print (merge_heading @ [NL]) \<in> set new \<longleftrightarrow>
         replaceLocalKeys (diff_loop ds (no_keys p)) \<noteq> []) \<and>
      (Print (add_heading @ [NL]) \<in> set new \<longleftrightarrow>
         missingLocalKeys (diff_loop ds (no_keys p)) \<noteq> []))) \<and>
   stdout (report localSecret ds st) = stdout st @
     (if ds = [] then
        [Print (''=== '' @ Name (Metadata localSecret) @ '' (Namespace: '' @
                Namespace (Metadata localSecret) @ '') ==='' @ [NL] @
                ''All secrets match between the local file and the deployed Kubernetes secret.'' @
                [NL, NL])]
      else
        [Print (''=== '' @ Name (Metadata localSecret) @ '' (Namespace: '' @
                Namespace (Metadata localSecret) @ '') ==='' @ [NL] @
                ''Differences found:'' @ [NL])] @
        concat (map (\<lambda>e. case (Local e, Deployed e) of
            (Some localVal, Some deployedVal) \<Rightarrow>
              [Print ('' - [DIFFERENT] '' @ Key e @ '':'' @ [NL]),
               Print (''   Local:     '' @ localVal @ [NL]),
               Print (''   Deployed:  '' @ deployedVal @ [NL, NL])]
          | (Some localVal, None) \<Rightarrow>
              [Print ('' - [ONLY IN LOCAL] '' @ Key e @ '':'' @ [NL]),
               Print (''   Value: '' @ localVal @ [NL, NL])]
          | (None, Some deployedVal) \<Rightarrow>
              [Print ('' - [ONLY IN DEPLOYED] '' @ Key e @ '':'' @ [NL]),
               Print (''   Value: '' @ deployedVal @ [NL, NL])]
          | (None, None) \<Rightarrow> []) ds) @
        (if replaceLocalKeys (diff_loop ds (no_keys p)) = [] then []
         else
           [Print (''Merge following key-value pairs into your local file to match deployed secrets:'' @ [NL]),
            Print (''```yaml'' @ [NL]),
            Print (''stringData:'' @ [NL])] @
           map (\<lambda>(key, v). Print (''  '' @ key @ '': '' @ formatYAMLValue v @ [NL]))
             (replaceLocalKeys (diff_loop ds (no_keys p))) @
           [Print (''```'' @ [NL]), Print [NL]]) @
        (if missingLocalKeys (diff_loop ds (no_keys p)) = [] then []
         else
           [Print (''Following should be added locally to make it match the deployed secrets:'' @ [NL]),
            Print (''```yaml'' @ [NL]),
            Print (''stringData:'' @ [NL])] @
           map (\<lambda>(key, v). Print (''  '' @ key @ '': '' @ formatYAMLValue v @ [NL]))
             (missingLocalKeys (diff_loop ds (no_keys p))) @
           [Print (''```'' @ [NL]), Print [NL]]))"
proof -
  let ?r = "replaceLocalKeys (diff_loop ds (no_keys p))"
  let ?m = "missingLocalKeys (diff_loop ds (no_keys p))"
  have r: "?r = fold replace_step ds []" and m: "?m = fold missing_step ds []"
    by (simp_all add: diff_loop_replace diff_loop_missing no_keys_def)
  have rk: "fst ` set ?r = Key ` {e \<in> set ds. classify e = Some DIFFERENT}"
    by (simp add: r replace_fold_keys)
  have mk: "fst ` set ?m = Key ` {e \<in> set ds. classify e = Some ONLY_IN_DEPLOYED}"
    by (simp add: m missing_fold_keys)
  have vals: "(classify e = Some DIFFERENT \<longrightarrow> map_of ?r (Key e) = Deployed e \<and> map_of ?m (Key e) = None) \<and>
         (classify e = Some ONLY_IN_DEPLOYED \<longrightarrow> map_of ?m (Key e) = Deployed e \<and> map_of ?r (Key e) = None) \<and>
         (classify e = Some ONLY_IN_LOCAL \<longrightarrow> map_of ?r (Key e) = None \<and> map_of ?m (Key e) = None)"
    if dist: "distinct (map Key ds)" and e: "e \<in> set ds" for e
  proof -
    have inj: "inj_on Key (set ds)" using dist by (simp add: distinct_map)
    have same: "e' = e" if "e' \<in> set ds" "Key e' = Key e" for e'
      using inj that e by (auto dest: inj_onD)
    have notr: "map_of ?r (Key e) = None" if "classify e \<noteq> Some DIFFERENT"
    proof -
      have "Key e \<notin> fst ` set ?r" using that same unfolding rk by force
      then show ?thesis by (simp add: map_of_eq_None_iff)
    qed
    have notm: "map_of ?m (Key e) = None" if "classify e \<noteq> Some ONLY_IN_DEPLOYED"
    proof -
      have "Key e \<notin> fst ` set ?m" using that same unfolding mk by force
      then show ?thesis by (simp add: map_of_eq_None_iff)
    qed
    show ?thesis
      using replace_fold_value [OF dist e, of "[]"] missing_fold_value [OF dist e, of "[]"]
        notr notm
      by (simp add: r [symmetric] m [symmetric])
  qed
  have same_keys: "?r = replaceLocalKeys (diff_loop ds (no_keys []))"
    "?m = missingLocalKeys (diff_loop ds (no_keys []))"
    by (simp_all add: diff_loop_replace diff_loop_missing no_keys_def)
  have acc: "fst ` set ?r = Key ` {e \<in> set ds. classify e = Some DIFFERENT} \<and>
     fst ` set ?m = Key ` {e \<in> set ds. classify e = Some ONLY_IN_DEPLOYED} \<and>
     (distinct (map Key ds) \<longrightarrow>
        (\<forall>e \<in> set ds.
           (classify e = Some DIFFERENT \<longrightarrow>
              map_of ?r (Key e) = Deployed e \<and> map_of ?m (Key e) = None) \<and>
           (classify e = Some ONLY_IN_DEPLOYED \<longrightarrow>
              map_of ?m (Key e) = Deployed e \<and> map_of ?r (Key e) = None) \<and>
           (classify e = Some ONLY_IN_LOCAL \<longrightarrow>
              map_of ?r (Key e) = None \<and> map_of ?m (Key e) = None))) \<and>
     (\<exists>new. stdout (report localSecret ds st) = stdout st @ new \<and>
        (Print (merge_heading @ [NL]) \<in> set new \<longleftrightarrow> ?r \<noteq> []) \<and>
        (Print (add_heading @ [NL]) \<in> set new \<longleftrightarrow> ?m \<noteq> []))"
    using rk mk vals report_printed [of localSecret ds st] unfolding same_keys by blast
  show ?thesis
    by (rule conjI [OF acc report_stdout_exact])
qed

theorem report_accumulators_witness:
  "distinct (map Key diffs3) \<and>
   classify \<lparr>Key = ''A'', Local = Some ''1'', Deployed = Some ''2''\<rparr> = Some DIFFERENT \<and>
   map_of (replaceLocalKeys (diff_loop diffs3 (no_keys []))) ''A'' = Some ''2'' \<and>
   map_of (missingLocalKeys (diff_loop diffs3 (no_keys []))) ''A'' = None \<and>
   replaceLocalKeys (diff_loop diffs3 (no_keys [])) \<noteq> [] \<and>
   Print (merge_heading @ [NL]) \<in> set (stdout (report secretA1 diffs3 run_start)) \<and>
   replaceLocalKeys (diff_loop diffs_local_only (no_keys [])) = [] \<and>
   missingLocalKeys (diff_loop diffs_local_only (no_keys [])) = [] \<and>
   Print (merge_heading @ [NL]) \<notin> set (stdout (report secretA1 diffs_local_only run_start)) \<and>
   Print (add_heading @ [NL]) \<notin> set (stdout (report secretA1 diffs_local_only run_start)) \<and>
   stdout (report secretA1 diffs3 run_start) =
     [Print (''=== app (Namespace: staging) ==='' @ [NL] @ ''Differences found:'' @ [NL]),
      Print ('' - [DIFFERENT] A:'' @ [NL]),
      Print (''   Local:     1'' @ [NL]),
      Print (''   Deployed:  2'' @ [NL, NL]),
      Print ('' - [ONLY IN LOCAL] B:'' @ [NL]),
      Print (''   Value: x'' @ [NL, NL]),
      Print ('' - [ONLY IN DEPLOYED] C:'' @ [NL]),
      Print (''   Value: y'' @ [NL, NL]),
      Print (''Merge following key-value pairs into your local file to match deployed secrets:'' @ [NL]),
      Print (''```yaml'' @ [NL]),
      Print (''stringData:'' @ [NL]),
      Print (''  A: '' @ [DQ] @ ''2'' @ [DQ, NL]),
      Print (''```'' @ [NL]),
      Print [NL],
      Print (''Following should be added locally to make it match the deployed secrets:'' @ [NL]),
      Print (''```yaml'' @ [NL]),
      Print (''stringData:'' @ [NL]),
      Print (''  C: '' @ [DQ] @ ''y'' @ [DQ, NL]),
      Print (''```'' @ [NL]),
      Print [NL]] \<and>
   stdout (report secretA1 diffs_local_only run_start) =
     [Print (''=== app (Namespace: staging) ==='' @ [NL] @ ''Differences found:'' @ [NL]),
      Print ('' - [ONLY IN LOCAL] A:'' @ [NL]),
      Print (''   Value: 1'' @ [NL, NL])]"
proof -
  let ?e = "\<lparr>Key = ''A'', Local = Some ''1'', Deployed = Some ''2''\<rparr>"
  have dist: "distinct (map Key diffs3)" and e: "?e \<in> set diffs3"
    and cls: "classify ?e = Some DIFFERENT"
    by (simp_all add: diffs3_def classify_def)
  have nonempty: "replaceLocalKeys (diff_loop diffs3 (no_keys [])) \<noteq> []"
    by (simp add: diffs3_def no_keys_def)
  have empty: "replaceLocalKeys (diff_loop diffs_local_only (no_keys [])) = []"
    "missingLocalKeys (diff_loop diffs_local_only (no_keys [])) = []"
    by (simp_all add: diffs_local_only_def no_keys_def)
  have start: "stdout run_start = []" by (simp add: run_start_def)
  note acc3 = conjunct1 [OF report_accumulators [of diffs3 "[]" secretA1 run_start]]
  note out3 = conjunct2 [OF report_accumulators [of diffs3 "[]" secretA1 run_start]]
  note acc1 = conjunct1 [OF report_accumulators [of diffs_local_only "[]" secretA1 run_start]]
  note out1 = conjunct2 [OF report_accumulators [of diffs_local_only "[]" secretA1 run_start]]
  from acc3 dist e cls
  have "map_of (replaceLocalKeys (diff_loop diffs3 (no_keys []))) (Key ?e) = Deployed ?e"
    and "map_of (missingLocalKeys (diff_loop diffs3 (no_keys []))) (Key ?e) = None"
    by blast+
  moreover from acc3 nonempty start
  have "Print (merge_heading @ [NL]) \<in> set (stdout (report secretA1 diffs3 run_start))"
    by auto
  moreover from acc1 empty start
  have "Print (merge_heading @ [NL]) \<notin> set (stdout (report secretA1 diffs_local_only run_start))"
    "Print (add_heading @ [NL]) \<notin> set (stdout (report secretA1 diffs_local_only run_start))"
    by auto
  moreover from out3
  have "stdout (report secretA1 diffs3 run_start) =
     [Print (''=== app (Namespace: staging) ==='' @ [NL] @ ''Differences found:'' @ [NL]),
      Print ('' - [DIFFERENT] A:'' @ [NL]),
      Print (''   Local:     1'' @ [NL]),
      Print (''   Deployed:  2'' @ [NL, NL]),
      Print ('' - [ONLY IN LOCAL] B:'' @ [NL]),
      Print (''   Value: x'' @ [NL, NL]),
      Print ('' - [ONLY IN DEPLOYED] C:'' @ [NL]),
      Print (''   Value: y'' @ [NL, NL]),
      Print (''Merge following key-value pairs into your local file to match deployed secrets:'' @ [NL]),
      Print (''```yaml'' @ [NL]),
      Print (''stringData:'' @ [NL]),
      Print (''  A: '' @ [DQ] @ ''2'' @ [DQ, NL]),
      Print (''```'' @ [NL]),
      Print [NL],
      Print (''Following should be added locally to make it match the deployed secrets:'' @ [NL]),
      Print (''```yaml'' @ [NL]),
      Print (''stringData:'' @ [NL]),
      Print (''  C: '' @ [DQ] @ ''y'' @ [DQ, NL]),
      Print (''```'' @ [NL]),
      Print [NL]]"
    by (simp add: diffs3_def no_keys_def run_start_def secretA1_def formatYAMLValue_def)
  moreover from out1
  have "stdout (report secretA1 diffs_local_only run_start) =
     [Print (''=== app (Namespace: staging) ==='' @ [NL] @ ''Differences found:'' @ [NL]),
      Print ('' - [ONLY IN LOCAL] A:'' @ [NL]),
      Print (''   Value: 1'' @ [NL, NL])]"
    by (simp add: diffs_local_only_def no_keys_def run_start_def secretA1_def)
  ultimately show ?thesis using dist cls nonempty empty by simp
qed

text \<open>The definitions a run on the example inputs unfolds.\<close>

lemmas run_defs =
  main_def default_flags_def one_file_world_def no_client_world_def cluster_def
  secretA_def secretB_def parsePatterns_def strings_TrimSpace_def is_space_def
  filepath_Join_def filepath_Clean_def clean_elem_def filepath_Base_def
  parseYAMLSecrets_def getDeployedSecret_def compareSecrets_def set_add_def
  report_def snippet_def header_def merge_heading_def add_heading_def
  summary_differences_def summary_match_def formatYAMLValue_def string_of_bytes_def
  processing_line_def comparing_line_def parsing_error_line_def retrieving_error_line_def
  secretW_def wide_cluster_def broken_file_world_def two_file_world_def bad_pattern_world_def

section \<open>Properties of \<open>getDeployedSecret\<close>\<close>

lemma copy_data_map:
  "map_of (copy_data m acc) k =
     (case map_of (rev (map (\<lambda>(k, v). (k, string_of_bytes v)) m)) k of
        None \<Rightarrow> map_of acc k
      | Some v \<Rightarrow> Some v)"
  by (induction m acc rule: copy_data.induct)
     (auto simp: update_conv' map_add_def split: option.splits)


lemma copy_stringData_map:
  "map_of (copy_stringData m acc) k =
     (case map_of (rev m) k of None \<Rightarrow> map_of acc k | Some v \<Rightarrow> Some v)"
  by (induction m acc rule: copy_stringData.induct)
     (auto simp: update_conv' map_add_def split: option.splits)

lemma map_of_rev_distinct: "distinct (map fst xs) \<Longrightarrow> map_of (rev xs) = map_of xs"
proof (induction xs)
  case Nil
  show ?case by simp
next
  case (Cons x xs)
  obtain k v where x: "x = (k, v)" by (cases x)
  with Cons.prems have "k \<notin> dom (map_of xs)" by (simp add: dom_map_of_conv_image_fst)
  then have "map_of xs k = None" by blast
  with Cons show ?case
    by (auto simp: x fun_eq_iff map_add_def split: option.splits)
qed

lemma map_of_converted:
  "map_of (map (\<lambda>(k, v). (k, string_of_bytes v)) m) k = map_option string_of_bytes (map_of m k)"
  by (induction m) auto

text \<open>
  Claim C10: when the API call succeeds, \<open>getDeployedSecret\<close> returns a deployed secret
  with the name and namespace of the cluster object, whose map is the empty map after the
  entries of \<open>data\<close> (bytes turned into strings) and then the entries of \<open>stringData\<close>
  have been assigned: a key of \<open>stringData\<close> has its \<open>stringData\<close> value, also when
  \<open>data\<close> has the key, and every other key has its \<open>data\<close> value. Each key occurs once
  in a Go map, which is what the two \<open>distinct\<close> hypotheses say of the lists.
\<close>

theorem getDeployedSecret_merges:
  assumes "clientset namespace name = Inr secret"
    and "distinct (map fst (V1_Data secret))"
    and "distinct (map fst (V1_StringData secret))"
  shows "\<exists>deployed.
     getDeployedSecret clientset namespace name = Inr (Some deployed) \<and>
     DS_Name deployed = V1_Name secret \<and>
     DS_Namespace deployed = V1_Namespace secret \<and>
     DS_Data deployed = copy_stringData (V1_StringData secret) (copy_data (V1_Data secret) []) \<and>
     (\<forall>k. map_of (DS_Data deployed) k =
        (case map_of (V1_StringData secret) k of
           Some v \<Rightarrow> Some v
         | None \<Rightarrow> map_option string_of_bytes (map_of (V1_Data secret) k)))"
proof -
  let ?conv = "map (\<lambda>(k, v). (k, string_of_bytes v)) (V1_Data secret)"
  let ?data = "copy_stringData (V1_StringData secret) (copy_data (V1_Data secret) [])"
  have "distinct (map fst ?conv)"
    using assms(2) by (simp add: comp_def case_prod_unfold)
  then have "map_of ?data k =
        (case map_of (V1_StringData secret) k of
           Some v \<Rightarrow> Some v
         | None \<Rightarrow> map_option string_of_bytes (map_of (V1_Data secret) k))" for k
    using assms(3)
    by (simp add: copy_stringData_map copy_data_map map_of_rev_distinct map_of_converted
          split: option.splits)
  then show ?thesis
    using assms(1) by (simp add: getDeployedSecret_def)
qed

theorem getDeployedSecret_merges_witness:
  "getDeployedSecret (\<lambda>namespace name. Inr v1_both) ''staging'' ''app'' =
     Inr (Some \<lparr>DS_Name = ''app'', DS_Namespace = ''staging'',
                 DS_Data = [(''A'', ''new''), (''C'', ''y'')]\<rparr>) \<and>
   distinct (map fst (V1_Data v1_both)) \<and>
   distinct (map fst (V1_StringData v1_both)) \<and>
   map_of (V1_Data v1_both) ''A'' = Some ''old'' \<and>
   map_of (V1_StringData v1_both) ''A'' = Some ''new''"
  using getDeployedSecret_merges
    [of "\<lambda>namespace name. Inr v1_both" "''staging''" "''app''" v1_both]
  by (simp add: getDeployedSecret_def v1_both_def string_of_bytes_def)

section \<open>Properties of \<open>main\<close>\<close>

lemma report_flag:
  "globalDifferencesFound (report localSecret ds st) =
     (globalDifferencesFound st \<or> ds \<noteq> [])"
  by (simp add: report_def Let_def)

lemma differs_Some:
  "getDeployedSecret clientset (Namespace (Metadata s)) (Name (Metadata s)) = Inr (Some d) \<Longrightarrow>
   compareSecrets s (Some d) = Inr ds \<Longrightarrow> differs clientset s = (ds \<noteq> [])"
  by (simp add: differs_def)

lemma differs_Inl:
  "getDeployedSecret clientset (Namespace (Metadata s)) (Name (Metadata s)) = Inl err \<Longrightarrow>
   \<not> differs clientset s"
  by (simp add: differs_def)

lemma compareSecrets_returns: "\<exists>ds. compareSecrets s (Some d) = Inr ds"
  by (simp add: compareSecrets_Some)

lemma secrets_loop_flag:
  assumes "\<forall>s \<in> set localSecrets.
     getDeployedSecret clientset (Namespace (Metadata s)) (Name (Metadata s)) \<noteq> Inr None"
  shows "\<exists>st'. secrets_loop clientset localSecrets st = Inr st' \<and>
     globalDifferencesFound st' =
       (globalDifferencesFound st \<or> (\<exists>s \<in> set localSecrets. differs clientset s))"
  using assms
proof (induction localSecrets arbitrary: st)
  case Nil
  show ?case by simp
next
  case (Cons s rest)
  let ?get = "getDeployedSecret clientset (Namespace (Metadata s)) (Name (Metadata s))"
  from Cons.prems have present: "?get \<noteq> Inr None"
    and rest: "\<forall>s \<in> set rest.
      getDeployedSecret clientset (Namespace (Metadata s)) (Name (Metadata s)) \<noteq> Inr None"
    by simp_all
  show ?case
  proof (cases ?get)
    case (Inl err)
    from Cons.IH [OF rest, of "st\<lparr>stdout := stdout st @ [comparing_line s] @
                  [retrieving_error_line s err]\<rparr>"] Inl differs_Inl [OF Inl]
    show ?thesis
      by (simp add: Let_def)
  next
    case (Inr deployedSecret)
    with present obtain d where d: "deployedSecret = Some d" by (cases deployedSecret) auto
    obtain ds where ds: "compareSecrets s (Some d) = Inr ds"
      using compareSecrets_returns by blast
    have "differs clientset s = (ds \<noteq> [])"
      using Inr d ds by (simp add: differs_Some)
    with Cons.IH [OF rest,
        of "report s ds (st\<lparr>stdout := stdout st @ [comparing_line s]\<rparr>)"] Inr d ds
    show ?thesis
      by (simp add: Let_def report_flag)
  qed
qed

lemma loaded_Cons:
  "loaded w (file # files) =
     (case snd (parseYAMLSecrets w file) of Inl err \<Rightarrow> [] | Inr localSecrets \<Rightarrow> localSecrets) @
     loaded w files"
  by (simp add: loaded_def)

lemma files_loop_flag:
  assumes "\<forall>s \<in> set (loaded w files).
     getDeployedSecret clientset (Namespace (Metadata s)) (Name (Metadata s)) \<noteq> Inr None"
  shows "\<exists>st'. files_loop w clientset files st = Inr st' \<and>
     globalDifferencesFound st' =
       (globalDifferencesFound st \<or> (\<exists>s \<in> set (loaded w files). differs clientset s))"
  using assms
proof (induction files arbitrary: st)
  case Nil
  show ?case by (simp add: loaded_def)
next
  case (Cons path files)
  obtain logs res where parse: "parseYAMLSecrets w path = (logs, res)"
    by (cases "parseYAMLSecrets w path")
  from Cons.prems have rest: "\<forall>s \<in> set (loaded w files).
      getDeployedSecret clientset (Namespace (Metadata s)) (Name (Metadata s)) \<noteq> Inr None"
    by (simp add: loaded_Cons)
  show ?case
  proof (cases res)
    case (Inl err)
    with Cons.IH [OF rest, of "st\<lparr>stdout := stdout st @ [processing_line path] @ logs @
                  [parsing_error_line path err]\<rparr>"] parse
    show ?thesis
      by (simp add: Let_def loaded_Cons)
  next
    case (Inr localSecrets)
    with Cons.prems parse have here: "\<forall>s \<in> set localSecrets.
      getDeployedSecret clientset (Namespace (Metadata s)) (Name (Metadata s)) \<noteq> Inr None"
      by (simp add: loaded_Cons)
    let ?st = "st\<lparr>stdout := stdout st @ [processing_line path] @ logs\<rparr>"
    from secrets_loop_flag [OF here, of ?st] obtain st1 where
      st1: "secrets_loop clientset localSecrets ?st = Inr st1"
      and f1: "globalDifferencesFound st1 =
         (globalDifferencesFound st \<or> (\<exists>s \<in> set localSecrets. differs clientset s))"
      by auto
    from Cons.IH [OF rest, of st1] obtain st2 where
      st2: "files_loop w clientset files st1 = Inr st2"
      and f2: "globalDifferencesFound st2 =
         (globalDifferencesFound st1 \<or> (\<exists>s \<in> set (loaded w files). differs clientset s))"
      by auto
    have "files_loop w clientset (path # files) st = Inr st2"
      using parse Inr st1 st2 by (simp add: Let_def)
    then show ?thesis
      using f1 f2 parse Inr by (auto simp: loaded_Cons)
  qed
qed

lemma glob_loop_cases:
  "(\<exists>matched. glob_loop w patterns files = Inr matched \<and>
      (\<forall>p \<in> set patterns. \<exists>m. Glob w p = Inr m)) \<or>
   (\<exists>p err. glob_loop w patterns files = Inl (p, err) \<and> p \<in> set patterns \<and>
      Glob w p = Inl err)"
proof (induction patterns arbitrary: files)
  case Nil
  show ?case by simp
next
  case (Cons q patterns)
  show ?case
  proof (cases "Glob w q")
    case (Inl err)
    then show ?thesis by simp
  next
    case (Inr m)
    from Cons.IH [of "files @ m"] Inr show ?thesis by auto
  qed
qed

text \<open>
  Claim C3, amended. When the Kubernetes client cannot be created, or the expansion of one
  of the patterns fails, \<open>log.Fatalf\<close> ends the process with status 1 and no secret is
  processed. When every pattern expands, the loop over the patterns gives the list of the
  files. In a run in which the client is created, every pattern expands, and no
  secret loaded from the files is reported absent by the cluster, the process ends with
  status 1 exactly when some loaded secret is fetched and compared with a non-empty
  result, wherever it stands among the loaded secrets, and with status 0 exactly when
  there is none; when no file matches, \<open>main\<close> returns (status 0).
\<close>

theorem main_verdict:
  "(KubernetesClient w = Inl err \<longrightarrow>
      main fl w = ([Log (''Failed to create Kubernetes client: '' @ err @ [NL])], Fatal)) \<and>
   (KubernetesClient w = Inr clientset \<and>
    p \<in> set (parsePatterns (patternPtr fl) (dirPtr fl)) \<and> Glob w p = Inl err \<longrightarrow>
      (\<exists>p' err'. p' \<in> set (parsePatterns (patternPtr fl) (dirPtr fl)) \<and>
         Glob w p' = Inl err' \<and>
         main fl w =
           ([Log (''Error processing pattern '' @ [SQ] @ p' @ [SQ] @ '': '' @ err' @ [NL])],
            Fatal))) \<and>
   exit_status Fatal = 1 \<and>
   ((\<forall>q \<in> set (parsePatterns (patternPtr fl) (dirPtr fl)). \<exists>m. Glob w q = Inr m) \<longrightarrow>
      (\<exists>matched. glob_loop w (parsePatterns (patternPtr fl) (dirPtr fl)) [] = Inr matched)) \<and>
   (KubernetesClient w = Inr clientset \<and>
    glob_loop w (parsePatterns (patternPtr fl) (dirPtr fl)) [] = Inr files \<and>
    (\<forall>s \<in> set (loaded w files).
       getDeployedSecret clientset (Namespace (Metadata s)) (Name (Metadata s)) \<noteq> Inr None) \<longrightarrow>
      (\<exists>written outcome.
         main fl w = (written, outcome) \<and>
         (files = [] \<longrightarrow> outcome = Returned) \<and>
         (exit_status outcome = 1 \<longleftrightarrow> (\<exists>s \<in> set (loaded w files). differs clientset s)) \<and>
         (exit_status outcome = 0 \<longleftrightarrow> \<not> (\<exists>s \<in> set (loaded w files). differs clientset s))))"
proof (intro conjI impI)
  assume "KubernetesClient w = Inl err"
  then show "main fl w = ([Log (''Failed to create Kubernetes client: '' @ err @ [NL])], Fatal)"
    by (simp add: main_def)
next
  assume a: "KubernetesClient w = Inr clientset \<and>
    p \<in> set (parsePatterns (patternPtr fl) (dirPtr fl)) \<and> Glob w p = Inl err"
  let ?ps = "parsePatterns (patternPtr fl) (dirPtr fl)"
  from glob_loop_cases [of w ?ps "[]"] a
  obtain p' err' where g: "glob_loop w ?ps [] = Inl (p', err')"
    and p': "p' \<in> set ?ps" "Glob w p' = Inl err'"
    by fastforce
  from a g have "main fl w =
      ([Log (''Error processing pattern '' @ [SQ] @ p' @ [SQ] @ '': '' @ err' @ [NL])], Fatal)"
    by (simp add: main_def)
  with p' show "\<exists>p' err'. p' \<in> set ?ps \<and> Glob w p' = Inl err' \<and>
         main fl w =
           ([Log (''Error processing pattern '' @ [SQ] @ p' @ [SQ] @ '': '' @ err' @ [NL])],
            Fatal)"
    by (intro exI conjI)
next
  show "exit_status Fatal = 1" by simp
next
  assume all: "\<forall>q \<in> set (parsePatterns (patternPtr fl) (dirPtr fl)). \<exists>m. Glob w q = Inr m"
  from glob_loop_cases [of w "parsePatterns (patternPtr fl) (dirPtr fl)" "[]"]
  show "\<exists>matched. glob_loop w (parsePatterns (patternPtr fl) (dirPtr fl)) [] = Inr matched"
  proof (elim disjE exE conjE)
    fix matched
    assume "glob_loop w (parsePatterns (patternPtr fl) (dirPtr fl)) [] = Inr matched"
    then show ?thesis by (rule exI)
  next
    fix p err
    assume "p \<in> set (parsePatterns (patternPtr fl) (dirPtr fl))" "Glob w p = Inl err"
    with all show ?thesis by auto
  qed
next
  assume a: "KubernetesClient w = Inr clientset \<and>
    glob_loop w (parsePatterns (patternPtr fl) (dirPtr fl)) [] = Inr files \<and>
    (\<forall>s \<in> set (loaded w files).
       getDeployedSecret clientset (Namespace (Metadata s)) (Name (Metadata s)) \<noteq> Inr None)"
  then have client: "KubernetesClient w = Inr clientset"
    and globs: "glob_loop w (parsePatterns (patternPtr fl) (dirPtr fl)) [] = Inr files"
    and present: "\<forall>s \<in> set (loaded w files).
       getDeployedSecret clientset (Namespace (Metadata s)) (Name (Metadata s)) \<noteq> Inr None"
    by simp_all
  show "\<exists>written outcome.
         main fl w = (written, outcome) \<and>
         (files = [] \<longrightarrow> outcome = Returned) \<and>
         (exit_status outcome = 1 \<longleftrightarrow> (\<exists>s \<in> set (loaded w files). differs clientset s)) \<and>
         (exit_status outcome = 0 \<longleftrightarrow> \<not> (\<exists>s \<in> set (loaded w files). differs clientset s))"
  proof (cases "files = []")
    case True
    then show ?thesis
      using client globs by (simp add: main_def loaded_def)
  next
    case False
    from files_loop_flag [OF present, of "\<lparr>stdout = [], globalDifferencesFound = False\<rparr>"]
    obtain st where st: "files_loop w clientset files
           \<lparr>stdout = [], globalDifferencesFound = False\<rparr> = Inr st"
      and flag: "globalDifferencesFound st = (\<exists>s \<in> set (loaded w files). differs clientset s)"
      by auto
    show ?thesis
    proof (cases "globalDifferencesFound st")
      case True
      then show ?thesis
        using client globs False st flag by (simp add: main_def)
    next
      case nodiff: False
      then show ?thesis
        using client globs False st flag by (simp add: main_def)
    qed
  qed
qed

text \<open>
  Claim C7, amended: every run that ends in one of the two \<open>os.Exit\<close> calls at the end of
  \<open>main\<close> has gone through the loop over the files, and the last thing it writes is
  \<open>Summary: Differences were found in some secrets.\<close> with status 1 when
  \<open>globalDifferencesFound\<close> is set, and \<open>Summary: All secrets match across
  environments.\<close> with status 0 when it is not.
\<close>

theorem main_summary_line:
  assumes "main fl w = (written, Exited n)"
  shows "written \<noteq> [] \<and>
     (\<exists>clientset files st.
        KubernetesClient w = Inr clientset \<and>
        glob_loop w (parsePatterns (patternPtr fl) (dirPtr fl)) [] = Inr files \<and>
        files_loop w clientset files \<lparr>stdout = [], globalDifferencesFound = False\<rparr> = Inr st \<and>
        (globalDifferencesFound st \<and> n = 1 \<and>
           last written = Print (''Summary: Differences were found in some secrets.'' @ [NL]) \<or>
         \<not> globalDifferencesFound st \<and> n = 0 \<and>
           last written = Print (''Summary: All secrets match across environments.'' @ [NL])))"
  using assms
  by (auto simp: main_def Let_def summary_differences_def summary_match_def
      split: sum.splits prod.splits if_splits)


lemma secrets_loop_absent:
  "getDeployedSecret clientset (Namespace (Metadata s)) (Name (Metadata s)) = Inr None \<Longrightarrow>
   secrets_loop clientset (s # rest) st =
     Inl (stdout st @ [comparing_line s], NilPointerDereference)"
  by (simp add: compareSecrets_def Let_def)

text \<open>
  Claim C1 says that a local secret whose deployed counterpart is absent is never handed
  to \<open>compareSecrets\<close>: the caller reports "not found" and goes on with the next secret.
  The code at the input of the claim's scenario, followed by a second secret: the cluster
  has no secret \<open>b\<close> in \<open>staging\<close>, \<open>getDeployedSecret\<close> returns \<open>nil, nil\<close>, \<open>main\<close>
  tests the error only and calls \<open>compareSecrets\<close> with the \<open>nil\<close> pointer, which panics;
  nothing is reported and the second secret is never compared.
\<close>

theorem main_absent_secret_panics:
  "getDeployedSecret (cluster ''2'') ''staging'' ''b'' = Inr None \<and>
   compareSecrets secretB None = Inl NilPointerDereference \<and>
   main default_flags (one_file_world (cluster ''2'') [secretB, secretA]) =
     ([processing_line ''kube-secret-staging.yaml'', comparing_line secretB],
      Panicked NilPointerDereference)"
  by (simp add: run_defs)

text \<open>
  Claim C3 as the specification states it fails on two runs: one in which the Kubernetes
  client cannot be created, where no secret is processed and \<open>log.Fatalf\<close> ends the process
  with status 1, not 0; and one in which a secret with a difference is followed by a secret
  the cluster does not have, where the process ends in a panic, not with status 1.
\<close>

theorem exit_status_counterexample:
  "main default_flags no_client_world =
     ([Log (''Failed to create Kubernetes client: error building kubeconfig: no configuration'' @
            [NL])], Fatal) \<and>
   exit_status Fatal = 1 \<and>
   differs (cluster ''2'') secretA \<and>
   snd (main default_flags (one_file_world (cluster ''2'') [secretA, secretB])) =
     Panicked NilPointerDereference \<and>
   exit_status (Panicked NilPointerDereference) = 2"
  by (simp add: run_defs differs_def)

theorem main_verdict_witness:
  "KubernetesClient no_client_world = Inl ''error building kubeconfig: no configuration'' \<and>
   snd (main default_flags no_client_world) = Fatal \<and>
   KubernetesClient bad_pattern_world = Inr (cluster ''2'') \<and>
   ''*secret*.yaml'' \<in> set (parsePatterns (patternPtr default_flags) (dirPtr default_flags)) \<and>
   Glob bad_pattern_world ''*secret*.yaml'' = Inl ''syntax error in pattern'' \<and>
   snd (main default_flags bad_pattern_world) = Fatal \<and>
   exit_status Fatal = 1 \<and>
   KubernetesClient (one_file_world wide_cluster [secretW, secretA, secretW]) = Inr wide_cluster \<and>
   glob_loop (one_file_world wide_cluster [secretW, secretA, secretW])
     (parsePatterns (patternPtr default_flags) (dirPtr default_flags)) [] =
     Inr [''kube-secret-staging.yaml''] \<and>
   loaded (one_file_world wide_cluster [secretW, secretA, secretW]) [''kube-secret-staging.yaml''] =
     [secretW, secretA, secretW] \<and>
   getDeployedSecret wide_cluster ''staging'' ''app'' \<noteq> Inr None \<and>
   getDeployedSecret wide_cluster ''staging'' ''web'' \<noteq> Inr None \<and>
   \<not> differs wide_cluster secretW \<and>
   differs wide_cluster secretA \<and>
   exit_status (snd (main default_flags (one_file_world wide_cluster [secretW, secretA, secretW]))) = 1 \<and>
   loaded (one_file_world wide_cluster [secretW, secretW]) [''kube-secret-staging.yaml''] =
     [secretW, secretW] \<and>
   exit_status (snd (main default_flags (one_file_world wide_cluster [secretW, secretW]))) = 0"
proof -
  let ?w = "one_file_world wide_cluster [secretW, secretA, secretW]"
  let ?v = "one_file_world wide_cluster [secretW, secretW]"
  let ?ps = "parsePatterns (patternPtr default_flags) (dirPtr default_flags)"
  have noclient: "KubernetesClient no_client_world =
      Inl ''error building kubeconfig: no configuration''"
    by (simp add: no_client_world_def)
  have f1: "snd (main default_flags no_client_world) = Fatal"
    using mp [OF conjunct1 [OF main_verdict
      [where w = no_client_world and fl = default_flags]] noclient] by simp
  have badclient: "KubernetesClient bad_pattern_world = Inr (cluster ''2'')"
    and pat: "''*secret*.yaml'' \<in> set ?ps"
    and badglob: "Glob bad_pattern_world ''*secret*.yaml'' = Inl ''syntax error in pattern''"
    by (simp_all add: run_defs)
  from mp [OF conjunct1 [OF conjunct2 [OF main_verdict
      [where w = bad_pattern_world and fl = default_flags]]]
      conjI [OF badclient conjI [OF pat badglob]]]
  obtain p' err' where "main default_flags bad_pattern_world =
      ([Log (''Error processing pattern '' @ [SQ] @ p' @ [SQ] @ '': '' @ err' @ [NL])], Fatal)"
    by (elim exE conjE)
  then have f2: "snd (main default_flags bad_pattern_world) = Fatal"
    by (simp only: snd_conv)
  have status: "exit_status Fatal = 1" by simp
  have client: "KubernetesClient ?w = Inr wide_cluster" "KubernetesClient ?v = Inr wide_cluster"
    by (simp_all add: one_file_world_def)
  have globs: "glob_loop ?w ?ps [] = Inr [''kube-secret-staging.yaml'']"
    "glob_loop ?v ?ps [] = Inr [''kube-secret-staging.yaml'']"
    by (simp_all add: run_defs)
  have loaded: "loaded ?w [''kube-secret-staging.yaml''] = [secretW, secretA, secretW]"
    "loaded ?v [''kube-secret-staging.yaml''] = [secretW, secretW]"
    by (simp_all add: run_defs loaded_def)
  have fetched: "getDeployedSecret wide_cluster ''staging'' ''app'' \<noteq> Inr None"
    "getDeployedSecret wide_cluster ''staging'' ''web'' \<noteq> Inr None"
    by (simp_all add: getDeployedSecret_def wide_cluster_def)
  have names: "Namespace (Metadata secretA) = ''staging''" "Name (Metadata secretA) = ''app''"
    "Namespace (Metadata secretW) = ''staging''" "Name (Metadata secretW) = ''web''"
    by (simp_all add: secretA_def secretW_def)
  have present: "\<forall>s \<in> set (loaded ?w [''kube-secret-staging.yaml'']).
      getDeployedSecret wide_cluster (Namespace (Metadata s)) (Name (Metadata s)) \<noteq> Inr None"
    "\<forall>s \<in> set (loaded ?v [''kube-secret-staging.yaml'']).
      getDeployedSecret wide_cluster (Namespace (Metadata s)) (Name (Metadata s)) \<noteq> Inr None"
    using fetched by (simp_all only: loaded list.set ball_simps names) simp_all
  have same: "\<not> differs wide_cluster secretW" and diff: "differs wide_cluster secretA"
    by (simp_all add: run_defs differs_def)
  from mp [OF conjunct2 [OF conjunct2 [OF conjunct2 [OF conjunct2 [OF main_verdict
      [where w = ?w and fl = default_flags]]]]]
      conjI [OF client(1) conjI [OF globs(1) present(1)]]]
  obtain written outcome where
    "main default_flags ?w = (written, outcome)"
    "exit_status outcome = 1 \<longleftrightarrow>
       (\<exists>s \<in> set (loaded ?w [''kube-secret-staging.yaml'']). differs wide_cluster s)"
    by (elim exE conjE)
  with diff have e1: "exit_status (snd (main default_flags ?w)) = 1"
    by (simp add: loaded)
  from mp [OF conjunct2 [OF conjunct2 [OF conjunct2 [OF conjunct2 [OF main_verdict
      [where w = ?v and fl = default_flags]]]]]
      conjI [OF client(2) conjI [OF globs(2) present(2)]]]
  obtain written' outcome' where
    "main default_flags ?v = (written', outcome')"
    "exit_status outcome' = 0 \<longleftrightarrow>
       \<not> (\<exists>s \<in> set (loaded ?v [''kube-secret-staging.yaml'']). differs wide_cluster s)"
    by (elim exE conjE)
  with same have e0: "exit_status (snd (main default_flags ?v)) = 0"
    by (simp add: loaded)
  from noclient f1 badclient pat badglob f2 status client(1) globs(1) loaded(1) fetched
    same diff e1 loaded(2) e0
  show ?thesis by (intro conjI)
qed

text \<open>
  Claim C7 as the specification states it fails: after a difference the last line is
  \<open>Summary: Differences were found in some secrets.\<close>, not \<open>... in some resources.\<close>
\<close>

theorem summary_line_counterexample:
  "snd (main default_flags (one_file_world (cluster ''2'') [secretA])) = Exited 1 \<and>
   last (fst (main default_flags (one_file_world (cluster ''2'') [secretA]))) =
     Print (''Summary: Differences were found in some secrets.'' @ [NL]) \<and>
   last (fst (main default_flags (one_file_world (cluster ''2'') [secretA]))) \<noteq>
     Print (''Summary: Differences were found in some resources.'' @ [NL])"
  by (simp add: run_defs)

theorem main_summary_line_witness:
  "snd (main default_flags (one_file_world (cluster ''1'') [secretA])) = Exited 0 \<and>
   last (fst (main default_flags (one_file_world (cluster ''1'') [secretA]))) =
     Print (''Summary: All secrets match across environments.'' @ [NL])"
proof -
  let ?w = "one_file_world (cluster ''1'') [secretA]"
  have ended: "snd (main default_flags ?w) = Exited 0"
    by (simp add: run_defs)
  then have "main default_flags ?w = (fst (main default_flags ?w), Exited 0)"
    by (metis prod.collapse)
  from main_summary_line [OF this]
  have "last (fst (main default_flags ?w)) =
     Print (''Summary: All secrets match across environments.'' @ [NL])"
    by auto
  with ended show ?thesis by blast
qed

section \<open>The loader, alone and within a run\<close>

lemma decode_loop_prefix:
  "\<exists>new.
     decode_loop filePath (map Inr docs @ stream) logs secrets =
       decode_loop filePath stream (logs @ new)
         (secrets @
          filter (\<lambda>doc. \<not> (Kind doc \<noteq> ''Secret'' \<or> Name (Metadata doc) = [] \<or>
                             Namespace (Metadata doc) = [] \<or> StringData doc = [])) docs) \<and>
     length new =
       length (filter (\<lambda>doc. Kind doc \<noteq> ''Secret'' \<or> Name (Metadata doc) = [] \<or>
                                Namespace (Metadata doc) = [] \<or> StringData doc = []) docs) \<and>
     (\<forall>x \<in> set new. \<exists>t. x = Log (CHR ''S'' # t))"
proof (induction docs arbitrary: logs secrets)
  case Nil
  show ?case by simp
next
  case (Cons doc docs)
  show ?case
  proof (cases "Kind doc \<noteq> ''Secret'' \<or> Name (Metadata doc) = [] \<or>
                Namespace (Metadata doc) = [] \<or> StringData doc = []")
    case False
    then show ?thesis
      using Cons.IH [of logs "secrets @ [doc]"] by simp
  next
    case True
    then obtain t where
      step: "decode_loop filePath (map Inr (doc # docs) @ stream) logs secrets =
             decode_loop filePath (map Inr docs @ stream) (logs @ [Log (CHR ''S'' # t)]) secrets"
      by (cases "Kind doc \<noteq> ''Secret''"; cases "Name (Metadata doc) = []";
          cases "Namespace (Metadata doc) = []") simp_all
    from Cons.IH [of "logs @ [Log (CHR ''S'' # t)]" secrets] obtain new where
      ih: "decode_loop filePath (map Inr docs @ stream) (logs @ [Log (CHR ''S'' # t)]) secrets =
         decode_loop filePath stream ((logs @ [Log (CHR ''S'' # t)]) @ new)
          (secrets @
             filter (\<lambda>doc. \<not> (Kind doc \<noteq> ''Secret'' \<or> Name (Metadata doc) = [] \<or>
                                Namespace (Metadata doc) = [] \<or> StringData doc = [])) docs)"
      and len: "length new =
       length (filter (\<lambda>doc. Kind doc \<noteq> ''Secret'' \<or> Name (Metadata doc) = [] \<or>
                                Namespace (Metadata doc) = [] \<or> StringData doc = []) docs)"
      and skip: "\<forall>x \<in> set new. \<exists>t. x = Log (CHR ''S'' # t)"
      by blast
    have f1: "filter (\<lambda>doc. \<not> (Kind doc \<noteq> ''Secret'' \<or> Name (Metadata doc) = [] \<or>
                                Namespace (Metadata doc) = [] \<or> StringData doc = [])) (doc # docs) =
              filter (\<lambda>doc. \<not> (Kind doc \<noteq> ''Secret'' \<or> Name (Metadata doc) = [] \<or>
                                Namespace (Metadata doc) = [] \<or> StringData doc = [])) docs"
      and f2: "length (filter (\<lambda>doc. Kind doc \<noteq> ''Secret'' \<or> Name (Metadata doc) = [] \<or>
                                Namespace (Metadata doc) = [] \<or> StringData doc = []) (doc # docs)) =
               Suc (length (filter (\<lambda>doc. Kind doc \<noteq> ''Secret'' \<or> Name (Metadata doc) = [] \<or>
                                Namespace (Metadata doc) = [] \<or> StringData doc = []) docs))"
      using True by simp_all
    have "decode_loop filePath (map Inr (doc # docs) @ stream) logs secrets =
       decode_loop filePath stream (logs @ (Log (CHR ''S'' # t) # new))
         (secrets @
          filter (\<lambda>doc. \<not> (Kind doc \<noteq> ''Secret'' \<or> Name (Metadata doc) = [] \<or>
                             Namespace (Metadata doc) = [] \<or> StringData doc = [])) (doc # docs))"
      unfolding step ih f1 by simp
    moreover have "length (Log (CHR ''S'' # t) # new) =
       length (filter (\<lambda>doc. Kind doc \<noteq> ''Secret'' \<or> Name (Metadata doc) = [] \<or>
                                Namespace (Metadata doc) = [] \<or> StringData doc = []) (doc # docs))"
      unfolding f2 using len by simp
    moreover have "\<forall>x \<in> set (Log (CHR ''S'' # t) # new). \<exists>t. x = Log (CHR ''S'' # t)"
      using skip by simp
    ultimately show ?thesis by blast
  qed
qed

lemma decode_stream_cases:
  "(\<exists>docs. stream = map Inr docs) \<or> (\<exists>docs e rest. stream = map Inr docs @ Inl e # rest)"
proof (induction stream)
  case Nil
  have "[] = map Inr []" by simp
  then show ?case by (intro disjI1 exI)
next
  case (Cons x stream)
  show ?case
  proof (cases x)
    case (Inl e)
    then have "x # stream = map Inr [] @ Inl e # stream" by simp
    then show ?thesis by (intro disjI2 exI)
  next
    case (Inr doc)
    from Cons.IH show ?thesis
    proof (elim disjE exE)
      fix docs
      assume "stream = map Inr docs"
      with Inr have "x # stream = map Inr (doc # docs)" by simp
      then show ?thesis by (intro disjI1 exI)
    next
      fix docs e rest
      assume "stream = map Inr docs @ Inl e # rest"
      with Inr have "x # stream = map Inr (doc # docs) @ Inl e # rest" by simp
      then show ?thesis by (intro disjI2 exI)
    qed
  qed
qed

lemma decode_loop_logs:
  "x \<in> set (fst (decode_loop filePath stream logs secrets)) \<Longrightarrow>
   x \<in> set logs \<or> (\<exists>t. x = Log (CHR ''S'' # t))"
proof (induction filePath stream logs secrets rule: decode_loop.induct)
  case (1 filePath logs secrets)
  then show ?case by simp
next
  case (2 filePath err docs logs secrets)
  then show ?case by simp
next
  case (3 filePath secret docs logs secrets)
  show ?case
  proof (cases "Kind secret \<noteq> ''Secret''")
    case True
    with "3.prems" "3.IH"(1) show ?thesis by auto
  next
    case k: False
    show ?thesis
    proof (cases "Name (Metadata secret) = []")
      case True
      with k "3.prems" "3.IH"(2) show ?thesis by auto
    next
      case n: False
      show ?thesis
      proof (cases "Namespace (Metadata secret) = []")
        case True
        with k n "3.prems" "3.IH"(3) show ?thesis by auto
      next
        case ns: False
        show ?thesis
        proof (cases "length (StringData secret) = 0")
          case True
          with k n ns "3.prems" "3.IH"(4) show ?thesis by auto
        next
          case False
          with k n ns "3.prems" "3.IH"(5) show ?thesis by auto
        qed
      qed
    qed
  qed
qed

lemma parse_logs_skipping:
  "x \<in> set (fst (parseYAMLSecrets w filePath)) \<Longrightarrow> \<exists>t. x = Log (CHR ''S'' # t)"
  using decode_loop_logs [of x filePath _ "[]" "[]"]
  by (cases "ReadFile w filePath") (auto simp: parseYAMLSecrets_def)

lemma not_comparing:
  "(\<exists>s. processing_line path = comparing_line s) = False"
  "(\<exists>s. parsing_error_line path err = comparing_line s) = False"
  "(\<exists>s. retrieving_error_line s' err = comparing_line s) = False"
  "(\<exists>s. Print t = comparing_line s) = False"
  "(\<exists>s. Log (CHR ''S'' # t) = comparing_line s) = False"
  "(\<exists>s. comparing_line s' = comparing_line s) = True"
proof -
  show "(\<exists>s. processing_line path = comparing_line s) = False"
    by (simp add: processing_line_def comparing_line_def)
  show "(\<exists>s. parsing_error_line path err = comparing_line s) = False"
    by (simp add: parsing_error_line_def comparing_line_def)
  show "(\<exists>s. retrieving_error_line s' err = comparing_line s) = False"
    by (simp add: retrieving_error_line_def comparing_line_def)
  show "(\<exists>s. Print t = comparing_line s) = False"
    by (simp add: comparing_line_def)
  show "(\<exists>s. Log (CHR ''S'' # t) = comparing_line s) = False"
    by (simp add: comparing_line_def)
  have "comparing_line s' = comparing_line s'" by simp
  then show "(\<exists>s. comparing_line s' = comparing_line s) = True" by blast
qed

lemma filter_comparing_none:
  assumes "\<forall>x \<in> set new. (\<exists>t. x = Print t) \<or> (\<exists>t. x = Log (CHR ''S'' # t))"
  shows "filter (\<lambda>x. \<exists>s. x = comparing_line s) new = []"
proof -
  have "\<not> (\<exists>s. x = comparing_line s)" if "x \<in> set new" for x
  proof -
    from assms that consider t where "x = Print t" | t where "x = Log (CHR ''S'' # t)"
      by blast
    then show ?thesis
      by cases (simp_all only: not_comparing simp_thms)
  qed
  then show ?thesis by (simp only: filter_empty_conv) blast
qed

lemma filter_comparing_report:
  "filter (\<lambda>x. \<exists>s. x = comparing_line s) (stdout (report localSecret ds st)) =
   filter (\<lambda>x. \<exists>s. x = comparing_line s) (stdout st)"
proof -
  from report_prints [of localSecret ds st] obtain new where
    new: "stdout (report localSecret ds st) = stdout st @ new"
    and prints: "\<forall>x \<in> set new. \<exists>t. x = Print t" by blast
  have "filter (\<lambda>x. \<exists>s. x = comparing_line s) new = []"
    using prints by (intro filter_comparing_none) blast
  with new show ?thesis by simp
qed

lemma filter_comparing_logs:
  "filter (\<lambda>x. \<exists>s. x = comparing_line s) (fst (parseYAMLSecrets w path)) = []"
  using parse_logs_skipping [of _ w path]
  by (intro filter_comparing_none) blast

lemma secrets_loop_compares:
  assumes "\<forall>s \<in> set localSecrets.
     getDeployedSecret clientset (Namespace (Metadata s)) (Name (Metadata s)) \<noteq> Inr None"
  shows "\<exists>st'. secrets_loop clientset localSecrets st = Inr st' \<and>
     filter (\<lambda>x. \<exists>s. x = comparing_line s) (stdout st') =
       filter (\<lambda>x. \<exists>s. x = comparing_line s) (stdout st) @ map comparing_line localSecrets"
  using assms
proof (induction localSecrets arbitrary: st)
  case Nil
  show ?case by simp
next
  case (Cons s rest)
  let ?get = "getDeployedSecret clientset (Namespace (Metadata s)) (Name (Metadata s))"
  from Cons.prems have present: "?get \<noteq> Inr None"
    and rest: "\<forall>s \<in> set rest.
      getDeployedSecret clientset (Namespace (Metadata s)) (Name (Metadata s)) \<noteq> Inr None"
    by simp_all
  show ?case
  proof (cases ?get)
    case (Inl err)
    from Cons.IH [OF rest, of "st\<lparr>stdout := stdout st @ [comparing_line s] @
                  [retrieving_error_line s err]\<rparr>"] Inl
    show ?thesis
      by (simp add: Let_def not_comparing)
  next
    case (Inr deployedSecret)
    with present obtain d where d: "deployedSecret = Some d" by (cases deployedSecret) auto
    obtain ds where ds: "compareSecrets s (Some d) = Inr ds"
      using compareSecrets_returns by blast
    from Cons.IH [OF rest,
        of "report s ds (st\<lparr>stdout := stdout st @ [comparing_line s]\<rparr>)"] Inr d ds
    show ?thesis
      by (simp add: Let_def filter_comparing_report not_comparing)
  qed
qed

lemma files_loop_compares:
  assumes "\<forall>s \<in> set (loaded w files).
     getDeployedSecret clientset (Namespace (Metadata s)) (Name (Metadata s)) \<noteq> Inr None"
  shows "\<exists>st'. files_loop w clientset files st = Inr st' \<and>
     filter (\<lambda>x. \<exists>s. x = comparing_line s) (stdout st') =
       filter (\<lambda>x. \<exists>s. x = comparing_line s) (stdout st) @
       map comparing_line (loaded w files)"
  using assms
proof (induction files arbitrary: st)
  case Nil
  show ?case by (simp add: loaded_def)
next
  case (Cons path files)
  obtain logs res where parse: "parseYAMLSecrets w path = (logs, res)"
    by (cases "parseYAMLSecrets w path")
  have logs: "filter (\<lambda>x. \<exists>s. x = comparing_line s) logs = []"
    using filter_comparing_logs [of w path] parse by simp
  from Cons.prems have rest: "\<forall>s \<in> set (loaded w files).
      getDeployedSecret clientset (Namespace (Metadata s)) (Name (Metadata s)) \<noteq> Inr None"
    by (simp add: loaded_Cons)
  show ?case
  proof (cases res)
    case (Inl err)
    with Cons.IH [OF rest, of "st\<lparr>stdout := stdout st @ [processing_line path] @ logs @
                  [parsing_error_line path err]\<rparr>"] parse logs
    show ?thesis
      by (simp add: Let_def loaded_Cons not_comparing)
  next
    case (Inr localSecrets)
    with Cons.prems parse have here: "\<forall>s \<in> set localSecrets.
      getDeployedSecret clientset (Namespace (Metadata s)) (Name (Metadata s)) \<noteq> Inr None"
      by (simp add: loaded_Cons)
    let ?st = "st\<lparr>stdout := stdout st @ [processing_line path] @ logs\<rparr>"
    from secrets_loop_compares [OF here, of ?st] obtain st1 where
      st1: "secrets_loop clientset localSecrets ?st = Inr st1"
      and f1: "filter (\<lambda>x. \<exists>s. x = comparing_line s) (stdout st1) =
         filter (\<lambda>x. \<exists>s. x = comparing_line s) (stdout st) @ map comparing_line localSecrets"
      using logs by (auto simp: not_comparing)
    from Cons.IH [OF rest, of st1] obtain st2 where
      st2: "files_loop w clientset files st1 = Inr st2"
      and f2: "filter (\<lambda>x. \<exists>s. x = comparing_line s) (stdout st2) =
         filter (\<lambda>x. \<exists>s. x = comparing_line s) (stdout st1) @
         map comparing_line (loaded w files)"
      by auto
    have "files_loop w clientset (path # files) st = Inr st2"
      using parse Inr st1 st2 by (simp add: Let_def)
    then show ?thesis
      using f1 f2 parse Inr by (simp add: loaded_Cons)
  qed
qed

lemma decode_all:
  "\<exists>logs. decode_loop filePath (map Inr docs) [] [] =
       (logs, Inr (filter (\<lambda>doc. \<not> (Kind doc \<noteq> ''Secret'' \<or> Name (Metadata doc) = [] \<or>
                             Namespace (Metadata doc) = [] \<or> StringData doc = [])) docs)) \<and>
     length logs =
       length (filter (\<lambda>doc. Kind doc \<noteq> ''Secret'' \<or> Name (Metadata doc) = [] \<or>
                                Namespace (Metadata doc) = [] \<or> StringData doc = []) docs)"
  using decode_loop_prefix [of filePath docs "[]" "[]" "[]"]
  by simp (elim exE conjE, intro exI conjI, assumption+)

lemma decode_error:
  "\<exists>logs. decode_loop filePath (map Inr docs @ Inl e # rest) [] [] =
       (logs, Inl (''error unmarshaling YAML: '' @ e)) \<and>
     length logs =
       length (filter (\<lambda>doc. Kind doc \<noteq> ''Secret'' \<or> Name (Metadata doc) = [] \<or>
                                Namespace (Metadata doc) = [] \<or> StringData doc = []) docs)"
  using decode_loop_prefix [of filePath docs "Inl e # rest" "[]" "[]"]
  by simp (elim exE conjE, intro exI conjI, assumption+)

text \<open>
  Claim C6, amended. A file that cannot be read gives an error. In a file that is read,
  the documents that decode before the first one that does not are taken in order; such a
  document is rejected (skipped, with one log line) exactly when its kind is not \<open>Secret\<close>,
  the one kind this loader supports, or its name, its namespace or its \<open>stringData\<close> is
  empty. When every document decodes, the result is exactly the documents that are not
  rejected, in their order: a rejected document never drops a sibling. A document that does
  not decode ends the loading of its file with an error, and the documents accepted before
  it are not returned. In a run in which no loaded secret is reported absent by the
  cluster, the loop over the files ends normally and the secrets it starts to compare are
  exactly those of the files that gave no error, file after file and in the order of the
  documents: neither a rejected document nor a file that gave an error stops the other
  files.
\<close>

theorem parseYAMLSecrets_admission:
  "(ReadFile w filePath = Inl err \<longrightarrow>
      parseYAMLSecrets w filePath = ([], Inl (''error reading file: '' @ err))) \<and>
   (ReadFile w filePath = Inr data \<and> Decode w data = map Inr docs \<longrightarrow>
      (\<exists>logs.
         parseYAMLSecrets w filePath =
           (logs,
            Inr (filter (\<lambda>doc. \<not> (Kind doc \<noteq> ''Secret'' \<or> Name (Metadata doc) = [] \<or>
                                   Namespace (Metadata doc) = [] \<or> StringData doc = [])) docs)) \<and>
         length logs =
           length (filter (\<lambda>doc. Kind doc \<noteq> ''Secret'' \<or> Name (Metadata doc) = [] \<or>
                                    Namespace (Metadata doc) = [] \<or> StringData doc = []) docs))) \<and>
   (ReadFile w filePath = Inr data \<and> Decode w data = map Inr docs @ Inl e # rest \<longrightarrow>
      (\<exists>logs.
         parseYAMLSecrets w filePath = (logs, Inl (''error unmarshaling YAML: '' @ e)) \<and>
         length logs =
           length (filter (\<lambda>doc. Kind doc \<noteq> ''Secret'' \<or> Name (Metadata doc) = [] \<or>
                                    Namespace (Metadata doc) = [] \<or> StringData doc = []) docs))) \<and>
   ((\<forall>s \<in> set (loaded w files).
       getDeployedSecret clientset (Namespace (Metadata s)) (Name (Metadata s)) \<noteq> Inr None) \<longrightarrow>
      (\<exists>st'. files_loop w clientset files st = Inr st' \<and>
         filter (\<lambda>x. \<exists>s. x = comparing_line s) (stdout st') =
           filter (\<lambda>x. \<exists>s. x = comparing_line s) (stdout st) @
           map comparing_line (loaded w files)))"
proof (intro conjI impI)
  assume "ReadFile w filePath = Inl err"
  then show "parseYAMLSecrets w filePath = ([], Inl (''error reading file: '' @ err))"
    by (simp add: parseYAMLSecrets_def)
next
  assume "ReadFile w filePath = Inr data \<and> Decode w data = map Inr docs"
  then have "parseYAMLSecrets w filePath = decode_loop filePath (map Inr docs) [] []"
    by (simp add: parseYAMLSecrets_def)
  then show "\<exists>logs.
         parseYAMLSecrets w filePath =
           (logs,
            Inr (filter (\<lambda>doc. \<not> (Kind doc \<noteq> ''Secret'' \<or> Name (Metadata doc) = [] \<or>
                                   Namespace (Metadata doc) = [] \<or> StringData doc = [])) docs)) \<and>
         length logs =
           length (filter (\<lambda>doc. Kind doc \<noteq> ''Secret'' \<or> Name (Metadata doc) = [] \<or>
                                    Namespace (Metadata doc) = [] \<or> StringData doc = []) docs)"
    by (simp only: decode_all)
next
  assume "ReadFile w filePath = Inr data \<and> Decode w data = map Inr docs @ Inl e # rest"
  then have "parseYAMLSecrets w filePath =
      decode_loop filePath (map Inr docs @ Inl e # rest) [] []"
    by (simp add: parseYAMLSecrets_def)
  then show "\<exists>logs.
         parseYAMLSecrets w filePath = (logs, Inl (''error unmarshaling YAML: '' @ e)) \<and>
         length logs =
           length (filter (\<lambda>doc. Kind doc \<noteq> ''Secret'' \<or> Name (Metadata doc) = [] \<or>
                                    Namespace (Metadata doc) = [] \<or> StringData doc = []) docs)"
    by (simp only: decode_error)
next
  assume "\<forall>s \<in> set (loaded w files).
       getDeployedSecret clientset (Namespace (Metadata s)) (Name (Metadata s)) \<noteq> Inr None"
  then show "\<exists>st'. files_loop w clientset files st = Inr st' \<and>
         filter (\<lambda>x. \<exists>s. x = comparing_line s) (stdout st') =
           filter (\<lambda>x. \<exists>s. x = comparing_line s) (stdout st) @
           map comparing_line (loaded w files)"
    by (rule files_loop_compares)
qed

theorem parseYAMLSecrets_admission_witness:
  "ReadFile no_client_world ''a-secret.yaml'' = Inl ''no such file'' \<and>
   parseYAMLSecrets no_client_world ''a-secret.yaml'' =
     ([], Inl ''error reading file: no such file'') \<and>
   ReadFile (two_file_world wide_cluster) ''b-secret.yaml'' = Inr ''b-secret.yaml'' \<and>
   Decode (two_file_world wide_cluster) ''b-secret.yaml'' =
     map Inr [secretA\<lparr>StringData := []\<rparr>, secretA] \<and>
   snd (parseYAMLSecrets (two_file_world wide_cluster) ''b-secret.yaml'') = Inr [secretA] \<and>
   length (fst (parseYAMLSecrets (two_file_world wide_cluster) ''b-secret.yaml'')) = 1 \<and>
   ReadFile (two_file_world wide_cluster) ''a-secret.yaml'' = Inr ''a-secret.yaml'' \<and>
   Decode (two_file_world wide_cluster) ''a-secret.yaml'' =
     map Inr [secretW\<lparr>Kind := ''ConfigMap''\<rparr>, secretW] @ Inl ''cannot unmarshal'' # [] \<and>
   snd (parseYAMLSecrets (two_file_world wide_cluster) ''a-secret.yaml'') =
     Inl ''error unmarshaling YAML: cannot unmarshal'' \<and>
   length (fst (parseYAMLSecrets (two_file_world wide_cluster) ''a-secret.yaml'')) = 1 \<and>
   loaded (two_file_world wide_cluster) [''a-secret.yaml'', ''b-secret.yaml''] = [secretA] \<and>
   getDeployedSecret wide_cluster ''staging'' ''app'' \<noteq> Inr None \<and>
   (\<exists>st'. files_loop (two_file_world wide_cluster) wide_cluster
            [''a-secret.yaml'', ''b-secret.yaml''] run_start = Inr st' \<and>
      filter (\<lambda>x. \<exists>s. x = comparing_line s) (stdout st') = [comparing_line secretA])"
proof -
  let ?w = "two_file_world wide_cluster"
  let ?rej = "\<lambda>doc. Kind doc \<noteq> ''Secret'' \<or> Name (Metadata doc) = [] \<or>
                    Namespace (Metadata doc) = [] \<or> StringData doc = []"
  let ?acc = "\<lambda>doc. \<not> (Kind doc \<noteq> ''Secret'' \<or> Name (Metadata doc) = [] \<or>
                    Namespace (Metadata doc) = [] \<or> StringData doc = [])"
  have noread: "ReadFile no_client_world ''a-secret.yaml'' = Inl ''no such file''"
    by (simp add: no_client_world_def)
  have readb: "ReadFile ?w ''b-secret.yaml'' = Inr ''b-secret.yaml''"
    and decb: "Decode ?w ''b-secret.yaml'' = map Inr [secretA\<lparr>StringData := []\<rparr>, secretA]"
    and reada: "ReadFile ?w ''a-secret.yaml'' = Inr ''a-secret.yaml''"
    and deca: "Decode ?w ''a-secret.yaml'' =
       map Inr [secretW\<lparr>Kind := ''ConfigMap''\<rparr>, secretW] @ Inl ''cannot unmarshal'' # []"
    by (simp_all add: two_file_world_def)
  have accb: "filter ?acc [secretA\<lparr>StringData := []\<rparr>, secretA] = [secretA]"
    and rejb: "length (filter ?rej [secretA\<lparr>StringData := []\<rparr>, secretA]) = 1"
    and reja: "length (filter ?rej [secretW\<lparr>Kind := ''ConfigMap''\<rparr>, secretW]) = 1"
    by (simp_all add: secretA_def secretW_def)
  note T0 = parseYAMLSecrets_admission
    [where w = no_client_world and filePath = "''a-secret.yaml''" and err = "''no such file''"]
  have p0: "parseYAMLSecrets no_client_world ''a-secret.yaml'' =
     ([], Inl ''error reading file: no such file'')"
    using mp [OF conjunct1 [OF T0] noread] by simp
  note Tb = parseYAMLSecrets_admission
    [where w = ?w and filePath = "''b-secret.yaml''" and data = "''b-secret.yaml''"
       and docs = "[secretA\<lparr>StringData := []\<rparr>, secretA]"]
  from mp [OF conjunct1 [OF conjunct2 [OF Tb]] conjI [OF readb decb]]
  obtain logsb where "parseYAMLSecrets ?w ''b-secret.yaml'' =
      (logsb, Inr (filter ?acc [secretA\<lparr>StringData := []\<rparr>, secretA]))"
    "length logsb = length (filter ?rej [secretA\<lparr>StringData := []\<rparr>, secretA])"
    by (elim exE conjE)
  then have pb: "snd (parseYAMLSecrets ?w ''b-secret.yaml'') = Inr [secretA]"
    "length (fst (parseYAMLSecrets ?w ''b-secret.yaml'')) = 1"
    by (simp_all only: accb rejb fst_conv snd_conv)
  note Ta = parseYAMLSecrets_admission
    [where w = ?w and filePath = "''a-secret.yaml''" and data = "''a-secret.yaml''"
       and docs = "[secretW\<lparr>Kind := ''ConfigMap''\<rparr>, secretW]"
       and e = "''cannot unmarshal''" and rest = "[]"]
  from mp [OF conjunct1 [OF conjunct2 [OF conjunct2 [OF Ta]]] conjI [OF reada deca]]
  obtain logsa where "parseYAMLSecrets ?w ''a-secret.yaml'' =
      (logsa, Inl (''error unmarshaling YAML: '' @ ''cannot unmarshal''))"
    "length logsa = length (filter ?rej [secretW\<lparr>Kind := ''ConfigMap''\<rparr>, secretW])"
    by (elim exE conjE)
  then have pa: "snd (parseYAMLSecrets ?w ''a-secret.yaml'') =
       Inl ''error unmarshaling YAML: cannot unmarshal''"
    "length (fst (parseYAMLSecrets ?w ''a-secret.yaml'')) = 1"
    by (simp_all only: reja fst_conv snd_conv) simp
  have loaded: "loaded ?w [''a-secret.yaml'', ''b-secret.yaml''] = [secretA]"
    by (simp add: loaded_def pa pb)
  have fetched: "getDeployedSecret wide_cluster ''staging'' ''app'' \<noteq> Inr None"
    by (simp add: getDeployedSecret_def wide_cluster_def)
  have present: "\<forall>s \<in> set (loaded ?w [''a-secret.yaml'', ''b-secret.yaml'']).
      getDeployedSecret wide_cluster (Namespace (Metadata s)) (Name (Metadata s)) \<noteq> Inr None"
  proof -
    have "Namespace (Metadata secretA) = ''staging''" "Name (Metadata secretA) = ''app''"
      by (simp_all add: secretA_def)
    with fetched show ?thesis by (simp only: loaded list.set ball_simps) simp
  qed
  note Tf = parseYAMLSecrets_admission
    [where w = ?w and files = "[''a-secret.yaml'', ''b-secret.yaml'']"
       and clientset = wide_cluster and st = run_start]
  from mp [OF conjunct2 [OF conjunct2 [OF conjunct2 [OF Tf]]] present]
  have run: "\<exists>st'. files_loop ?w wide_cluster [''a-secret.yaml'', ''b-secret.yaml''] run_start =
        Inr st' \<and>
      filter (\<lambda>x. \<exists>s. x = comparing_line s) (stdout st') = [comparing_line secretA]"
    by (simp add: loaded run_start_def)
  from noread p0 readb decb pb reada deca pa loaded fetched run
  show ?thesis by (intro conjI)
qed

text \<open>
  Claim C6 as the specification states it fails: in a file whose first document is a valid
  secret that differs from the deployed one and whose second document does not decode,
  \<open>parseYAMLSecrets\<close> returns the error only; the valid secret is never compared and the
  run ends with status 0 and the summary that all secrets match.
\<close>

theorem decode_error_counterexample:
  "differs (cluster ''2'') secretA \<and>
   parseYAMLSecrets (broken_file_world (cluster ''2'')) ''kube-secret-staging.yaml'' =
     ([], Inl ''error unmarshaling YAML: cannot unmarshal'') \<and>
   main default_flags (broken_file_world (cluster ''2'')) =
     ([processing_line ''kube-secret-staging.yaml'',
       parsing_error_line ''kube-secret-staging.yaml''
         ''error unmarshaling YAML: cannot unmarshal'',
       Print (''Summary: All secrets match across environments.'' @ [NL])],
      Exited 0)"
  by (simp add: run_defs differs_def)

section \<open>The default patterns\<close>

lemma Match_star:
  "filepath_Match (CHR ''*'' # pattern) name \<longleftrightarrow>
     (\<exists>a b. name = a @ b \<and> CHR ''/'' \<notin> set a \<and> filepath_Match pattern b)"
proof (induction name)
  case Nil
  show ?case by simp
next
  case (Cons c name)
  show ?case
  proof
    assume "filepath_Match (CHR ''*'' # pattern) (c # name)"
    then consider "filepath_Match pattern (c # name)"
      | "c \<noteq> CHR ''/''" "filepath_Match (CHR ''*'' # pattern) name"
      by auto
    then show "\<exists>a b. c # name = a @ b \<and> CHR ''/'' \<notin> set a \<and> filepath_Match pattern b"
    proof cases
      case 1
      then have "c # name = [] @ (c # name) \<and> CHR ''/'' \<notin> set [] \<and>
                 filepath_Match pattern (c # name)" by simp
      then show ?thesis by blast
    next
      case 2
      with Cons.IH obtain a b where
        "name = a @ b" "CHR ''/'' \<notin> set a" "filepath_Match pattern b" by blast
      with 2 have "c # name = (c # a) @ b \<and> CHR ''/'' \<notin> set (c # a) \<and>
                 filepath_Match pattern b" by auto
      then show ?thesis by blast
    qed
  next
    assume "\<exists>a b. c # name = a @ b \<and> CHR ''/'' \<notin> set a \<and> filepath_Match pattern b"
    then obtain a b where ab: "c # name = a @ b" "CHR ''/'' \<notin> set a" "filepath_Match pattern b"
      by blast
    show "filepath_Match (CHR ''*'' # pattern) (c # name)"
    proof (cases a)
      case Nil
      with ab have "filepath_Match pattern (c # name)" by simp
      then show ?thesis by simp
    next
      case (Cons x a')
      with ab have "c \<noteq> CHR ''/''" "name = a' @ b" "CHR ''/'' \<notin> set a'" by auto
      with ab(3) Cons.IH have "filepath_Match (CHR ''*'' # pattern) name" by blast
      with \<open>c \<noteq> CHR ''/''\<close> show ?thesis by simp
    qed
  qed
qed

lemma Match_literal:
  "p \<noteq> CHR ''*'' \<Longrightarrow> p \<noteq> CHR ''?'' \<Longrightarrow>
   filepath_Match (p # pattern) name \<longleftrightarrow> (\<exists>b. name = p # b \<and> filepath_Match pattern b)"
  by (cases name) auto

lemma Match_Nil: "filepath_Match [] name \<longleftrightarrow> name = []"
  by (cases name) auto

lemma Match_literals:
  "\<forall>c \<in> set lit. c \<noteq> CHR ''*'' \<and> c \<noteq> CHR ''?'' \<Longrightarrow>
   filepath_Match (lit @ pattern) name \<longleftrightarrow> (\<exists>b. name = lit @ b \<and> filepath_Match pattern b)"
proof (induction lit arbitrary: name)
  case Nil
  show ?case by simp
next
  case (Cons c lit)
  then have c: "c \<noteq> CHR ''*''" "c \<noteq> CHR ''?''"
    and lit: "\<forall>c \<in> set lit. c \<noteq> CHR ''*'' \<and> c \<noteq> CHR ''?''" by simp_all
  show ?case
    using Match_literal [OF c, of "lit @ pattern" name] Cons.IH [OF lit] by auto
qed

lemma Match_suffix:
  assumes "\<forall>c \<in> set ext. c \<noteq> CHR ''*'' \<and> c \<noteq> CHR ''?''"
  shows "filepath_Match (CHR ''*'' # ext) name \<longleftrightarrow>
     (\<exists>b. CHR ''/'' \<notin> set b \<and> name = b @ ext)"
proof -
  have "filepath_Match ext t \<longleftrightarrow> t = ext" for t
    using Match_literals [OF assms, of "[]" t] by (simp add: Match_Nil)
  then show ?thesis
    by (simp add: Match_star) blast
qed

lemma Match_star_literal_star:
  assumes "\<forall>c \<in> set lit. c \<noteq> CHR ''*'' \<and> c \<noteq> CHR ''?''"
    and "\<forall>c \<in> set ext. c \<noteq> CHR ''*'' \<and> c \<noteq> CHR ''?''"
  shows "filepath_Match (CHR ''*'' # lit @ CHR ''*'' # ext) name \<longleftrightarrow>
     (\<exists>a b. CHR ''/'' \<notin> set a \<and> CHR ''/'' \<notin> set b \<and> name = a @ lit @ b @ ext)"
proof -
  have "filepath_Match (lit @ CHR ''*'' # ext) t \<longleftrightarrow>
          (\<exists>b. CHR ''/'' \<notin> set b \<and> t = lit @ b @ ext)" for t
    using Match_literals [OF assms(1), of "CHR ''*'' # ext" t] Match_suffix [OF assms(2)]
    by auto
  then show ?thesis
    by (simp only: Match_star) blast
qed

lemma Match_secret_yaml:
  "filepath_Match ''*secret*.yaml'' name \<longleftrightarrow>
     (\<exists>a b. CHR ''/'' \<notin> set a \<and> CHR ''/'' \<notin> set b \<and> name = a @ ''secret'' @ b @ ''.yaml'')"
  using Match_star_literal_star [of "''secret''" "''.yaml''" name] by simp

lemma Match_secret_yml:
  "filepath_Match ''*secret*.yml'' name \<longleftrightarrow>
     (\<exists>a b. CHR ''/'' \<notin> set a \<and> CHR ''/'' \<notin> set b \<and> name = a @ ''secret'' @ b @ ''.yml'')"
  using Match_star_literal_star [of "''secret''" "''.yml''" name] by simp

lemma default_patterns:
  "parsePatterns (patternPtr default_flags) (dirPtr default_flags) =
     [''*secret*.yaml'', ''*secret*.yml'']"
  by (simp add: default_flags_def parsePatterns_def strings_TrimSpace_def is_space_def
        filepath_Join_def filepath_Clean_def clean_elem_def)

text \<open>
  Claim C8, amended: the default of \<open>--pattern\<close> is the comma-separated list of the two
  globs \<open>*secret*.yaml\<close> and \<open>*secret*.yml\<close>; with the default directory, a name matches
  one of them exactly when it is made of bytes other than the separator, contains
  \<open>secret\<close>, and ends in \<open>.yaml\<close> or \<open>.yml\<close> after it.
\<close>

theorem default_pattern_matches:
  "parsePatterns (patternPtr default_flags) (dirPtr default_flags) =
     [''*secret*.yaml'', ''*secret*.yml''] \<and>
   (\<forall>name.
      (\<exists>p \<in> set (parsePatterns (patternPtr default_flags) (dirPtr default_flags)).
         filepath_Match p name) \<longleftrightarrow>
      (\<exists>a b. CHR ''/'' \<notin> set a \<and> CHR ''/'' \<notin> set b \<and>
         (name = a @ ''secret'' @ b @ ''.yaml'' \<or> name = a @ ''secret'' @ b @ ''.yml'')))"
proof -
  have "(\<exists>p \<in> set [''*secret*.yaml'', ''*secret*.yml'']. filepath_Match p name) \<longleftrightarrow>
      (\<exists>a b. CHR ''/'' \<notin> set a \<and> CHR ''/'' \<notin> set b \<and>
         (name = a @ ''secret'' @ b @ ''.yaml'' \<or> name = a @ ''secret'' @ b @ ''.yml''))" for name
  proof -
    have "(\<exists>p \<in> set [''*secret*.yaml'', ''*secret*.yml'']. filepath_Match p name) \<longleftrightarrow>
        filepath_Match ''*secret*.yaml'' name \<or> filepath_Match ''*secret*.yml'' name"
      by (simp only: list.set bex_simps insert_iff empty_iff simp_thms)
    then show ?thesis
      unfolding Match_secret_yaml Match_secret_yml by blast
  qed
  then show ?thesis
    by (simp only: default_patterns simp_thms)
qed

text \<open>
  Claim C8 as the specification states it fails: the name \<open>app-config.yaml\<close> contains
  \<open>config\<close> and ends in \<open>.yaml\<close>, and neither default glob matches it.
\<close>

theorem default_pattern_counterexample:
  "parsePatterns (patternPtr default_flags) (dirPtr default_flags) =
     [''*secret*.yaml'', ''*secret*.yml''] \<and>
   \<not> filepath_Match ''*secret*.yaml'' ''app-config.yaml'' \<and>
   \<not> filepath_Match ''*secret*.yml'' ''app-config.yaml''"
  by (simp add: default_flags_def parsePatterns_def strings_TrimSpace_def is_space_def
        filepath_Join_def filepath_Clean_def clean_elem_def)

theorem default_pattern_matches_witness:
  "filepath_Match ''*secret*.yaml'' ''kube-secret-staging.yaml'' \<or>
   filepath_Match ''*secret*.yml'' ''kube-secret-staging.yaml''"
proof -
  have "CHR ''/'' \<notin> set ''kube-'' \<and> CHR ''/'' \<notin> set ''-staging'' \<and>
      (''kube-secret-staging.yaml'' = ''kube-'' @ ''secret'' @ ''-staging'' @ ''.yaml'' \<or>
       ''kube-secret-staging.yaml'' = ''kube-'' @ ''secret'' @ ''-staging'' @ ''.yml'')"
    by simp
  then have parts: "\<exists>a b. CHR ''/'' \<notin> set a \<and> CHR ''/'' \<notin> set b \<and>
      (''kube-secret-staging.yaml'' = a @ ''secret'' @ b @ ''.yaml'' \<or>
       ''kube-secret-staging.yaml'' = a @ ''secret'' @ b @ ''.yml'')"
    by (intro exI)
  note list = conjunct1 [OF default_pattern_matches]
  note iff = spec [OF conjunct2 [OF default_pattern_matches], of "''kube-secret-staging.yaml''"]
  from iffD2 [OF iff parts]
  have "\<exists>p \<in> set [''*secret*.yaml'', ''*secret*.yml''].
      filepath_Match p ''kube-secret-staging.yaml''"
    by (simp only: list)
  then show ?thesis by (simp only: list.set bex_simps insert_iff empty_iff simp_thms)
qed

end
